theory Spec2Isabelle
  imports Main "HOL-Library.Word"
begin

section \<open>Solidity values\<close>

text \<open>
  The three contracts are compiled with Solidity 0.8.19: \<open>uint256\<close> and \<open>uint8\<close> are
  fixed-width words, and \<open>+\<close>, \<open>-\<close>, \<open>*\<close>, \<open>/\<close> are checked: an overflow, an underflow or
  a division by zero reverts the call with a panic. A revert is the \<open>Inl\<close> branch of
  the result and carries the reason; a call that returns is \<open>Inr\<close>.
\<close>

type_synonym u256 = "256 word"
type_synonym u8 = "8 word"
type_synonym address = "160 word"

datatype error =
    ArithmeticPanic
  | DivisionPanic
  | IndexPanic
  | CallFailed
  | OnlyAdmin
  | OnlyClaimsProcessor
  | PayoutAlreadyProcessed
  | AmountMustBePositive
  | InvalidPriceData
  | InsufficientFunds
  | NoBalanceToWithdraw
  | TransferFailed
  | ExceedsAvailableFunds
  | PolicyDoesNotExist
  | PolicyNotActive
  | PolicyAlreadyInactive
  | OnlyAIOracle
  | OnlyReviewer
  | AlreadyReviewer
  | NotAReviewer
  | InvalidThresholds
  | InvalidPolicy
  | InvalidStatus
  | NotAssignedReviewer
  | NoActiveReviewers
  | ClaimNotFound
  | OnlyCoordinatorCanFulfill

definition checked_add :: "u256 \<Rightarrow> u256 \<Rightarrow> error + u256" where
  "checked_add a b = (if unat a + unat b < 2 ^ 256 then Inr (a + b) else Inl ArithmeticPanic)"

definition checked_sub :: "u256 \<Rightarrow> u256 \<Rightarrow> error + u256" where
  "checked_sub a b = (if unat b \<le> unat a then Inr (a - b) else Inl ArithmeticPanic)"

definition checked_mul :: "u256 \<Rightarrow> u256 \<Rightarrow> error + u256" where
  "checked_mul a b = (if unat a * unat b < 2 ^ 256 then Inr (a * b) else Inl ArithmeticPanic)"

definition checked_div :: "u256 \<Rightarrow> u256 \<Rightarrow> error + u256" where
  "checked_div a b = (if b = 0 then Inl DivisionPanic else Inr (a div b))"

text \<open>Sequencing of a step that may revert with the rest of the function body.\<close>

definition andThen :: "error + 'a \<Rightarrow> ('a \<Rightarrow> error + 'b) \<Rightarrow> error + 'b" where
  "andThen r f = (case r of Inl e \<Rightarrow> Inl e | Inr x \<Rightarrow> f x)"

section \<open>PayoutManager\<close>

record Payout =
  payout_claimId :: u256
  recipient :: address
  usdAmount :: u256
  avaxAmount :: u256
  payout_timestamp :: u256
  processed :: bool
  withdrawn :: bool

text \<open>
  The storage of the contract, together with \<open>ethBalance\<close>, the native balance that
  the chain keeps for the contract (\<open>address(this).balance\<close>). The last two fields are
  ghost counters that no operation reads: \<open>deposited\<close> adds up what \<open>deposit\<close> and
  \<open>receive\<close> took in, \<open>swept\<close> what \<open>withdrawToTreasury\<close> sent out.
\<close>

record pm_state =
  payouts :: "u256 \<Rightarrow> Payout"
  balances :: "address \<Rightarrow> u256"
  pm_claimsProcessor :: address
  pm_admin :: address
  treasury :: address
  priceFeed :: address
  totalPayouts :: u256
  totalWithdrawn :: u256
  availableFunds :: u256
  ethBalance :: u256
  deposited :: nat
  swept :: nat

definition emptyPayout :: Payout where
  "emptyPayout = \<lparr>payout_claimId = 0, recipient = 0, usdAmount = 0, avaxAmount = 0,
     payout_timestamp = 0, processed = False, withdrawn = False\<rparr>"

text \<open>The constructor, called by \<open>deployer\<close>.\<close>

definition pm_constructor :: "address \<Rightarrow> address \<Rightarrow> address \<Rightarrow> pm_state" where
  "pm_constructor deployer cp feed =
     \<lparr>payouts = (\<lambda>_. emptyPayout), balances = (\<lambda>_. 0), pm_claimsProcessor = cp,
      pm_admin = deployer, treasury = deployer, priceFeed = feed, totalPayouts = 0,
      totalWithdrawn = 0, availableFunds = 0, ethBalance = 0, deposited = 0, swept = 0\<rparr>"

text \<open>
  \<open>convertUSDToAVAX\<close>: \<open>price\<close> is the \<open>int256\<close> answer of the price feed's
  \<open>latestRoundData\<close>, read as two's complement for the guard and cast to \<open>uint256\<close>
  (the same bits) afterwards.
\<close>

definition convertUSDToAVAX :: "u256 \<Rightarrow> u256 \<Rightarrow> error + u256" where
  "convertUSDToAVAX price usd =
     (if \<not> 0 < sint price then Inl InvalidPriceData
      else andThen (checked_mul usd (10 ^ 18)) (\<lambda>num.
           andThen (checked_mul price (10 ^ 2)) (\<lambda>den.
           checked_div num den)))"

definition processPayout ::
  "address \<Rightarrow> u256 \<Rightarrow> u256 \<Rightarrow> u256 \<Rightarrow> address \<Rightarrow> u256 \<Rightarrow> pm_state \<Rightarrow> error + pm_state" where
  "processPayout sender now price cid rcp usd s =
     (if sender \<noteq> pm_claimsProcessor s then Inl OnlyClaimsProcessor
      else if payout_claimId (payouts s cid) \<noteq> 0 then Inl PayoutAlreadyProcessed
      else if \<not> 0 < unat usd then Inl AmountMustBePositive
      else andThen (convertUSDToAVAX price usd) (\<lambda>avax.
        if \<not> unat avax \<le> unat (availableFunds s) then Inl InsufficientFunds
        else
          let s1 = s\<lparr>payouts := (payouts s)(cid :=
                     \<lparr>payout_claimId = cid, recipient = rcp, usdAmount = usd,
                      avaxAmount = avax, payout_timestamp = now, processed = True,
                      withdrawn = False\<rparr>)\<rparr>
          in andThen (checked_add (balances s1 rcp) avax) (\<lambda>b.
             let s2 = s1\<lparr>balances := (balances s1)(rcp := b)\<rparr>
             in andThen (checked_sub (availableFunds s2) avax) (\<lambda>af.
                let s3 = s2\<lparr>availableFunds := af\<rparr>
                in andThen (checked_add (totalPayouts s3) avax) (\<lambda>tp.
                   Inr (s3\<lparr>totalPayouts := tp\<rparr>))))))"

text \<open>
  \<open>withdraw\<close> and \<open>withdrawToTreasury\<close> hand control to the recipient with
  \<open>call{value: amount}("")\<close>. The parameter \<open>send\<close> is that call: \<open>send amount s\<close> is
  \<open>None\<close> when the call reports failure (everything the recipient did is undone) and
  \<open>Some s'\<close> when it reports success and the recipient's code has left the contract in
  \<open>s'\<close>.
\<close>

definition withdraw ::
  "(u256 \<Rightarrow> pm_state \<Rightarrow> pm_state option) \<Rightarrow> address \<Rightarrow> pm_state \<Rightarrow> error + pm_state" where
  "withdraw send sender s =
     (let amount = balances s sender in
      if \<not> 0 < unat amount then Inl NoBalanceToWithdraw
      else
        let s1 = s\<lparr>balances := (balances s)(sender := 0)\<rparr>
        in case send amount s1 of
             None \<Rightarrow> Inl TransferFailed
           | Some s2 \<Rightarrow>
               andThen (checked_add (totalWithdrawn s2) amount) (\<lambda>tw.
               Inr (s2\<lparr>totalWithdrawn := tw\<rparr>)))"

text \<open>
  A payable call first moves \<open>msg.value\<close> into the contract's native balance, then runs
  the body.
\<close>

definition credit :: "u256 \<Rightarrow> pm_state \<Rightarrow> error + pm_state" where
  "credit v s =
     (if unat (ethBalance s) + unat v < 2 ^ 256 then Inr (s\<lparr>ethBalance := ethBalance s + v\<rparr>)
      else Inl CallFailed)"

definition receive :: "address \<Rightarrow> u256 \<Rightarrow> pm_state \<Rightarrow> error + pm_state" where
  "receive sender v s =
     andThen (credit v s) (\<lambda>s1.
     andThen (checked_add (availableFunds s1) v) (\<lambda>af.
     Inr (s1\<lparr>availableFunds := af, deposited := deposited s1 + unat v\<rparr>)))"

definition deposit :: "address \<Rightarrow> u256 \<Rightarrow> pm_state \<Rightarrow> error + pm_state" where
  "deposit sender v s =
     andThen (credit v s) (\<lambda>s1.
     andThen (checked_add (availableFunds s1) v) (\<lambda>af.
     Inr (s1\<lparr>availableFunds := af, deposited := deposited s1 + unat v\<rparr>)))"

definition withdrawToTreasury ::
  "(u256 \<Rightarrow> pm_state \<Rightarrow> pm_state option) \<Rightarrow> address \<Rightarrow> u256 \<Rightarrow> pm_state \<Rightarrow> error + pm_state" where
  "withdrawToTreasury send sender amount s =
     (if sender \<noteq> pm_admin s then Inl OnlyAdmin
      else andThen (checked_sub (ethBalance s) (totalPayouts s)) (\<lambda>d.
           andThen (checked_add d (totalWithdrawn s)) (\<lambda>limit.
           if \<not> unat amount \<le> unat limit then Inl ExceedsAvailableFunds
           else andThen (checked_sub (availableFunds s) amount) (\<lambda>af.
             let s1 = s\<lparr>availableFunds := af, swept := swept s + unat amount\<rparr>
             in case send amount s1 of
                  None \<Rightarrow> Inl TransferFailed
                | Some s2 \<Rightarrow> Inr s2))))"

definition setTreasury :: "address \<Rightarrow> address \<Rightarrow> pm_state \<Rightarrow> error + pm_state" where
  "setTreasury sender t s =
     (if sender \<noteq> pm_admin s then Inl OnlyAdmin else Inr (s\<lparr>treasury := t\<rparr>))"

definition setPriceFeed :: "address \<Rightarrow> address \<Rightarrow> pm_state \<Rightarrow> error + pm_state" where
  "setPriceFeed sender f s =
     (if sender \<noteq> pm_admin s then Inl OnlyAdmin else Inr (s\<lparr>priceFeed := f\<rparr>))"

text \<open>
  The value transfer itself: it fails when the contract holds less than \<open>amount\<close>;
  otherwise the amount leaves the contract and the recipient's code runs.
\<close>

definition transfer ::
  "(pm_state \<Rightarrow> pm_state option) \<Rightarrow> u256 \<Rightarrow> pm_state \<Rightarrow> pm_state option" where
  "transfer code amount s =
     (if unat (ethBalance s) < unat amount then None
      else code (s\<lparr>ethBalance := ethBalance s - amount\<rparr>))"

text \<open>
  The calls that reach the contract, each with its \<open>msg.sender\<close> first;
  \<open>ProcessPayout\<close> carries \<open>block.timestamp\<close> and the price feed's answer next, then
  the arguments of the function. What a recipient
  does while it is being paid is a \<open>callee\<close>: it accepts the funds, refuses them
  (reverts), or first calls back into the contract and goes on. A call back that reverts
  is undone and the recipient goes on; a recipient that lets the revert through is one
  that refuses.
\<close>

datatype pm_call =
    ProcessPayout address u256 u256 u256 address u256
  | Withdraw address callee
  | Deposit address u256
  | Receive address u256
  | WithdrawToTreasury address u256 callee
  | SetTreasury address address
  | SetPriceFeed address address
and callee =
    Accept
  | Refuse
  | Reenter pm_call callee

fun pm_exec :: "pm_call \<Rightarrow> pm_state \<Rightarrow> error + pm_state"
and run_callee :: "callee \<Rightarrow> pm_state \<Rightarrow> pm_state option" where
  "pm_exec (ProcessPayout sender now price cid rcp usd) s =
     processPayout sender now price cid rcp usd s"
| "pm_exec (Withdraw sender k) s =
     withdraw (\<lambda>amount t. transfer (\<lambda>u. run_callee k u) amount t) sender s"
| "pm_exec (Deposit sender v) s = deposit sender v s"
| "pm_exec (Receive sender v) s = receive sender v s"
| "pm_exec (WithdrawToTreasury sender amount k) s =
     withdrawToTreasury (\<lambda>a t. transfer (\<lambda>u. run_callee k u) a t) sender amount s"
| "pm_exec (SetTreasury sender t) s = setTreasury sender t s"
| "pm_exec (SetPriceFeed sender f) s = setPriceFeed sender f s"
| "run_callee Accept s = Some s"
| "run_callee Refuse s = None"
| "run_callee (Reenter c k) s =
     run_callee k (case pm_exec c s of Inl e \<Rightarrow> s | Inr s' \<Rightarrow> s')"

text \<open>A transaction: a call that reverts leaves the state as it was.\<close>

definition pm_transact :: "pm_call \<Rightarrow> pm_state \<Rightarrow> pm_state" where
  "pm_transact c s = (case pm_exec c s of Inl e \<Rightarrow> s | Inr s' \<Rightarrow> s')"

fun pm_run :: "pm_call list \<Rightarrow> pm_state \<Rightarrow> pm_state" where
  "pm_run [] s = s"
| "pm_run (c # cs) s = pm_run cs (pm_transact c s)"

subsection \<open>Ledger quantities\<close>

text \<open>
  \<open>owed\<close> is the sum of all withdrawable balances. \<open>gap\<close> is what has been paid out
  according to \<open>totalPayouts\<close> and is neither withdrawable nor withdrawn; \<open>pool_drift\<close>
  is the distance between \<open>availableFunds\<close> and deposits less payouts less sweeps.
\<close>

definition owed :: "pm_state \<Rightarrow> nat" where
  "owed s = (\<Sum>a\<in>UNIV. unat (balances s a))"

definition gap :: "pm_state \<Rightarrow> int" where
  "gap s = int (unat (totalPayouts s)) - int (owed s) - int (unat (totalWithdrawn s))"

definition pool_drift :: "pm_state \<Rightarrow> int" where
  "pool_drift s =
     int (unat (availableFunds s)) + int (unat (totalPayouts s)) + int (swept s)
       - int (deposited s)"

text \<open>What a completed call, or a recipient's code that returned, leaves in place.\<close>

definition pm_frame :: "pm_state \<Rightarrow> pm_state \<Rightarrow> bool" where
  "pm_frame s s' \<longleftrightarrow>
     gap s' = gap s \<and> pool_drift s' = pool_drift s \<and>
     pm_claimsProcessor s' = pm_claimsProcessor s \<and>
     (\<forall>cid. payout_claimId (payouts s cid) \<noteq> 0 \<longrightarrow> payouts s' cid = payouts s cid)"

text \<open>
  The state in which the recipient's code starts to run during \<open>withdraw\<close>: the
  balance of \<open>sender\<close> is reset and the amount has left the contract, while
  \<open>totalWithdrawn\<close> is not yet increased.
\<close>

definition in_flight :: "address \<Rightarrow> pm_state \<Rightarrow> pm_state" where
  "in_flight sender s =
     s\<lparr>balances := (balances s)(sender := 0),
       ethBalance := ethBalance s - balances s sender\<rparr>"

text \<open>
  The state in which the treasury's code starts to run during \<open>withdrawToTreasury\<close>.
\<close>

definition in_sweep :: "u256 \<Rightarrow> pm_state \<Rightarrow> pm_state" where
  "in_sweep amount s =
     s\<lparr>availableFunds := availableFunds s - amount, swept := swept s + unat amount,
       ethBalance := ethBalance s - amount\<rparr>"

text \<open>
  The states of the contract: after the constructor, after any call that returned, and
  in the middle of a \<open>withdraw\<close> or a \<open>withdrawToTreasury\<close> while the recipient is
  being paid (calls made by the recipient start from there).
\<close>

inductive pm_reachable :: "pm_state \<Rightarrow> bool" where
  constructed: "pm_reachable (pm_constructor deployer cp feed)"
| called: "pm_reachable s \<Longrightarrow> pm_exec c s = Inr s' \<Longrightarrow> pm_reachable s'"
| paying: "pm_reachable s \<Longrightarrow> 0 < unat (balances s sender) \<Longrightarrow>
           unat (balances s sender) \<le> unat (ethBalance s) \<Longrightarrow>
           pm_reachable (in_flight sender s)"
| sweeping: "pm_reachable s \<Longrightarrow> unat amount \<le> unat (availableFunds s) \<Longrightarrow>
           unat amount \<le> unat (ethBalance s) \<Longrightarrow>
           pm_reachable (in_sweep amount s)"

section \<open>PolicyRegistry\<close>

record Policy =
  policy_policyId :: u256
  policyholder :: address
  premium :: u256
  coverage :: u256
  deductible :: u256
  policyType :: string
  startDate :: u256
  endDate :: u256
  isActive :: bool
  claimsCount :: u256
  policy_totalPayouts :: u256

record pr_state =
  policies :: "u256 \<Rightarrow> Policy"
  userPolicies :: "address \<Rightarrow> u256 list"
  nextPolicyId :: u256
  pr_admin :: address
  pr_claimsProcessor :: address

definition emptyPolicy :: Policy where
  "emptyPolicy = \<lparr>policy_policyId = 0, policyholder = 0, premium = 0, coverage = 0,
     deductible = 0, policyType = [], startDate = 0, endDate = 0, isActive = False,
     claimsCount = 0, policy_totalPayouts = 0\<rparr>"

definition pr_constructor :: "address \<Rightarrow> pr_state" where
  "pr_constructor deployer =
     \<lparr>policies = (\<lambda>_. emptyPolicy), userPolicies = (\<lambda>_. []), nextPolicyId = 1,
      pr_admin = deployer, pr_claimsProcessor = 0\<rparr>"

definition setClaimsProcessor :: "address \<Rightarrow> address \<Rightarrow> pr_state \<Rightarrow> error + pr_state" where
  "setClaimsProcessor sender a s =
     (if sender \<noteq> pr_admin s then Inl OnlyAdmin else Inr (s\<lparr>pr_claimsProcessor := a\<rparr>))"

text \<open>\<open>now\<close> is \<open>block.timestamp\<close>. The new id is returned with the state.\<close>

definition createPolicy ::
  "address \<Rightarrow> u256 \<Rightarrow> address \<Rightarrow> u256 \<Rightarrow> u256 \<Rightarrow> u256 \<Rightarrow> string \<Rightarrow> u256 \<Rightarrow> pr_state
     \<Rightarrow> error + (u256 \<times> pr_state)" where
  "createPolicy sender now holder prem cov ded ptype duration s =
     (if sender \<noteq> pr_admin s then Inl OnlyAdmin
      else
        let pid = nextPolicyId s
        in andThen (checked_add (nextPolicyId s) 1) (\<lambda>next.
           let s1 = s\<lparr>nextPolicyId := next\<rparr>
           in andThen (checked_add now duration) (\<lambda>fin.
              let s2 = s1\<lparr>policies := (policies s1)(pid :=
                         \<lparr>policy_policyId = pid, policyholder = holder, premium = prem,
                          coverage = cov, deductible = ded, policyType = ptype,
                          startDate = now, endDate = fin, isActive = True,
                          claimsCount = 0, policy_totalPayouts = 0\<rparr>)\<rparr>
              in Inr (pid, s2\<lparr>userPolicies :=
                         (userPolicies s2)(holder := userPolicies s2 holder @ [pid])\<rparr>))))"

definition updatePolicy ::
  "address \<Rightarrow> u256 \<Rightarrow> u256 \<Rightarrow> u256 \<Rightarrow> u256 \<Rightarrow> u256 \<Rightarrow> pr_state \<Rightarrow> error + pr_state" where
  "updatePolicy sender pid prem cov ded duration s =
     (if sender \<noteq> pr_admin s then Inl OnlyAdmin
      else if policy_policyId (policies s pid) \<noteq> pid then Inl PolicyDoesNotExist
      else if \<not> isActive (policies s pid) then Inl PolicyNotActive
      else
        let p = (policies s pid)\<lparr>premium := prem, coverage := cov, deductible := ded\<rparr>
        in if 0 < unat duration
           then andThen (checked_add (endDate p) duration) (\<lambda>fin.
                  Inr (s\<lparr>policies := (policies s)(pid := p\<lparr>endDate := fin\<rparr>)\<rparr>))
           else Inr (s\<lparr>policies := (policies s)(pid := p)\<rparr>))"

definition cancelPolicy :: "address \<Rightarrow> u256 \<Rightarrow> pr_state \<Rightarrow> error + pr_state" where
  "cancelPolicy sender pid s =
     (if sender \<noteq> pr_admin s then Inl OnlyAdmin
      else if policy_policyId (policies s pid) \<noteq> pid then Inl PolicyDoesNotExist
      else if \<not> isActive (policies s pid) then Inl PolicyAlreadyInactive
      else Inr (s\<lparr>policies := (policies s)(pid := (policies s pid)\<lparr>isActive := False\<rparr>)\<rparr>))"

definition incrementClaimCount :: "address \<Rightarrow> u256 \<Rightarrow> pr_state \<Rightarrow> error + pr_state" where
  "incrementClaimCount sender pid s =
     (if sender \<noteq> pr_claimsProcessor s then Inl OnlyClaimsProcessor
      else if policy_policyId (policies s pid) \<noteq> pid then Inl PolicyDoesNotExist
      else if \<not> isActive (policies s pid) then Inl PolicyNotActive
      else andThen (checked_add (claimsCount (policies s pid)) 1) (\<lambda>n.
             Inr (s\<lparr>policies := (policies s)(pid := (policies s pid)\<lparr>claimsCount := n\<rparr>)\<rparr>)))"

definition recordPayout :: "address \<Rightarrow> u256 \<Rightarrow> u256 \<Rightarrow> pr_state \<Rightarrow> error + pr_state" where
  "recordPayout sender pid amount s =
     (if sender \<noteq> pr_claimsProcessor s then Inl OnlyClaimsProcessor
      else if policy_policyId (policies s pid) \<noteq> pid then Inl PolicyDoesNotExist
      else if \<not> isActive (policies s pid) then Inl PolicyNotActive
      else andThen (checked_add (policy_totalPayouts (policies s pid)) amount) (\<lambda>t.
             Inr (s\<lparr>policies :=
                    (policies s)(pid := (policies s pid)\<lparr>policy_totalPayouts := t\<rparr>)\<rparr>)))"

definition isPolicyValidForClaims :: "u256 \<Rightarrow> u256 \<Rightarrow> address \<Rightarrow> pr_state \<Rightarrow> bool" where
  "isPolicyValidForClaims now pid clmnt s =
     (let policy = policies s pid
      in policy_policyId policy = pid \<and>
         policyholder policy = clmnt \<and>
         isActive policy \<and>
         unat (startDate policy) \<le> unat now \<and>
         unat now \<le> unat (endDate policy))"

datatype pr_call =
    SetClaimsProcessor address address
  | CreatePolicy address address u256 u256 u256 string u256
  | UpdatePolicy address u256 u256 u256 u256 u256
  | CancelPolicy address u256
  | IncrementClaimCount address u256
  | RecordPayout address u256 u256

fun pr_exec :: "u256 \<Rightarrow> pr_call \<Rightarrow> pr_state \<Rightarrow> error + pr_state" where
  "pr_exec now (SetClaimsProcessor sender a) s = setClaimsProcessor sender a s"
| "pr_exec now (CreatePolicy sender holder prem cov ded ptype duration) s =
     andThen (createPolicy sender now holder prem cov ded ptype duration s) (\<lambda>(pid, s'). Inr s')"
| "pr_exec now (UpdatePolicy sender pid prem cov ded duration) s =
     updatePolicy sender pid prem cov ded duration s"
| "pr_exec now (CancelPolicy sender pid) s = cancelPolicy sender pid s"
| "pr_exec now (IncrementClaimCount sender pid) s = incrementClaimCount sender pid s"
| "pr_exec now (RecordPayout sender pid amount) s = recordPayout sender pid amount s"

section \<open>ClaimsProcessor\<close>

datatype ClaimStatus = Submitted | AIAnalyzed | UnderReview | Approved | Rejected | Paid

record Claim =
  claimId :: u256
  policyId :: u256
  claimant :: address
  description :: string
  evidenceHashes :: "string list"
  timestamp :: u256
  status :: ClaimStatus
  claimType :: u8
  severity :: u8
  fraudRisk :: u8
  recommendedPayout :: u256
  finalPayout :: u256
  processedAt :: u256
  requiresHumanReview :: bool
  assignedReviewer :: address

text \<open>
  The storage of the contract. The parameters that are only forwarded to the randomness
  coordinator (subscription id, key hash, gas limit, confirmations, number of words) are
  left out.
\<close>

record cp_state =
  claims :: "u256 \<Rightarrow> Claim"
  vrfRequestToClaim :: "u256 \<Rightarrow> u256"
  reviewers :: "address \<Rightarrow> bool"
  activeReviewers :: "address list"
  nextClaimId :: u256
  vrfCoordinator :: address
  policyRegistry :: address
  payoutManager :: address
  aiOracle :: address
  cp_admin :: address
  autoApproveThreshold :: u8
  autoRejectThreshold :: u8

definition emptyClaim :: Claim where
  "emptyClaim = \<lparr>claimId = 0, policyId = 0, claimant = 0, description = [],
     evidenceHashes = [], timestamp = 0, status = Submitted, claimType = 0, severity = 0,
     fraudRisk = 0, recommendedPayout = 0, finalPayout = 0, processedAt = 0,
     requiresHumanReview = False, assignedReviewer = 0\<rparr>"

definition cp_constructor :: "address \<Rightarrow> address \<Rightarrow> address \<Rightarrow> cp_state" where
  "cp_constructor deployer coordinator registry =
     \<lparr>claims = (\<lambda>_. emptyClaim), vrfRequestToClaim = (\<lambda>_. 0), reviewers = (\<lambda>_. False),
      activeReviewers = [], nextClaimId = 1, vrfCoordinator = coordinator,
      policyRegistry = registry, payoutManager = 0, aiOracle = deployer,
      cp_admin = deployer, autoApproveThreshold = 20, autoRejectThreshold = 70\<rparr>"

definition setPayoutManager :: "address \<Rightarrow> address \<Rightarrow> cp_state \<Rightarrow> error + cp_state" where
  "setPayoutManager sender a s =
     (if sender \<noteq> cp_admin s then Inl OnlyAdmin else Inr (s\<lparr>payoutManager := a\<rparr>))"

definition setAIOracle :: "address \<Rightarrow> address \<Rightarrow> cp_state \<Rightarrow> error + cp_state" where
  "setAIOracle sender a s =
     (if sender \<noteq> cp_admin s then Inl OnlyAdmin else Inr (s\<lparr>aiOracle := a\<rparr>))"

definition addReviewer :: "address \<Rightarrow> address \<Rightarrow> cp_state \<Rightarrow> error + cp_state" where
  "addReviewer sender r s =
     (if sender \<noteq> cp_admin s then Inl OnlyAdmin
      else if reviewers s r then Inl AlreadyReviewer
      else Inr (s\<lparr>reviewers := (reviewers s)(r := True),
                  activeReviewers := activeReviewers s @ [r]\<rparr>))"

text \<open>
  The loop of \<open>removeReviewer\<close>: the first entry equal to \<open>r\<close> is overwritten with the
  last entry, the last entry is popped, and the loop stops.
\<close>

function removeLoop :: "nat \<Rightarrow> address list \<Rightarrow> address \<Rightarrow> address list" where
  "removeLoop i xs r =
     (if i < length xs
      then (if xs ! i = r then butlast (xs[i := xs ! (length xs - 1)])
            else removeLoop (i + 1) xs r)
      else xs)"
  by pat_completeness auto
termination
  by (relation "measure (\<lambda>(i, xs, r). length xs - i)") auto

declare removeLoop.simps [simp del]

definition removeReviewer :: "address \<Rightarrow> address \<Rightarrow> cp_state \<Rightarrow> error + cp_state" where
  "removeReviewer sender r s =
     (if sender \<noteq> cp_admin s then Inl OnlyAdmin
      else if \<not> reviewers s r then Inl NotAReviewer
      else Inr (s\<lparr>reviewers := (reviewers s)(r := False),
                  activeReviewers := removeLoop 0 (activeReviewers s) r\<rparr>))"

definition setThresholds :: "address \<Rightarrow> u8 \<Rightarrow> u8 \<Rightarrow> cp_state \<Rightarrow> error + cp_state" where
  "setThresholds sender autoApprove autoReject s =
     (if sender \<noteq> cp_admin s then Inl OnlyAdmin
      else if \<not> unat autoApprove < unat autoReject then Inl InvalidThresholds
      else Inr (s\<lparr>autoApproveThreshold := autoApprove, autoRejectThreshold := autoReject\<rparr>))"

text \<open>
  \<open>fulfillRandomWords\<close>, the internal callback. \<open>randomWords[0]\<close> is read only when
  there is an active reviewer; reading it from an empty array is an index panic.
\<close>

definition fulfillRandomWords :: "u256 \<Rightarrow> u256 list \<Rightarrow> cp_state \<Rightarrow> error + cp_state" where
  "fulfillRandomWords requestId randomWords s =
     (let cid = vrfRequestToClaim s requestId
      in if \<not> 0 < unat cid then Inl ClaimNotFound
         else if length (activeReviewers s) = 0
         then Inr (s\<lparr>claims := (claims s)(cid :=
                      (claims s cid)\<lparr>assignedReviewer := cp_admin s\<rparr>)\<rparr>)
         else (case randomWords of
                 [] \<Rightarrow> Inl IndexPanic
               | w0 # _ \<Rightarrow>
                   let reviewerIndex = unat w0 mod length (activeReviewers s);
                       selectedReviewer = activeReviewers s ! reviewerIndex
                   in Inr (s\<lparr>claims := (claims s)(cid :=
                             (claims s cid)\<lparr>assignedReviewer := selectedReviewer\<rparr>)\<rparr>)))"

text \<open>
  Modelled from the spec: the external entry point \<open>rawFulfillRandomWords\<close> belongs to
  the imported base contract \<open>VRFConsumerBaseV2\<close>, which is not part of the sources. The
  callback is accepted from the oracle identity only and is handed to
  \<open>fulfillRandomWords\<close> as it is.
\<close>

definition rawFulfillRandomWords ::
  "address \<Rightarrow> u256 \<Rightarrow> u256 list \<Rightarrow> cp_state \<Rightarrow> error + cp_state" where
  "rawFulfillRandomWords sender requestId randomWords s =
     (if sender \<noteq> vrfCoordinator s then Inl OnlyCoordinatorCanFulfill
      else fulfillRandomWords requestId randomWords s)"

subsection \<open>The three contracts together\<close>

text \<open>
  The deployed system: each contract's address and state. A call from the
  ClaimsProcessor to the address stored in \<open>policyRegistry\<close> or \<open>payoutManager\<close> reaches
  the PolicyRegistry or the PayoutManager when that is the contract at this address; a
  call to any other address finds no such function and reverts (\<open>CallFailed\<close>).
\<close>

record world =
  cpAt :: address
  cp :: cp_state
  pmAt :: address
  pm :: pm_state
  prAt :: address
  pr :: pr_state

text \<open>
  What a call takes from its surroundings: \<open>block.timestamp\<close>, the answer of the price
  feed at that moment, and what the randomness coordinator does with a request made in
  this call: \<open>Some requestId\<close> when \<open>requestRandomWords\<close> returns that id, \<open>None\<close>
  when it reverts.
\<close>

record env =
  block_timestamp :: u256
  feed_answer :: u256
  vrf_requestId :: "u256 option"

definition claim_upd :: "u256 \<Rightarrow> (Claim \<Rightarrow> Claim) \<Rightarrow> world \<Rightarrow> world" where
  "claim_upd cid f w = w\<lparr>cp := (cp w)\<lparr>claims := (claims (cp w))(cid := f (claims (cp w) cid))\<rparr>\<rparr>"

definition approveClaim :: "env \<Rightarrow> u256 \<Rightarrow> u256 \<Rightarrow> world \<Rightarrow> error + world" where
  "approveClaim e cid payout w =
     (let w1 = claim_upd cid (\<lambda>c. c\<lparr>status := Approved, finalPayout := payout,
                                    processedAt := block_timestamp e\<rparr>) w
      in if payoutManager (cp w1) \<noteq> 0
         then
           if payoutManager (cp w1) \<noteq> pmAt w1 then Inl CallFailed
           else andThen (processPayout (cpAt w1) (block_timestamp e) (feed_answer e) cid
                           (claimant (claims (cp w1) cid)) payout (pm w1)) (\<lambda>pm'.
                let w2 = w1\<lparr>pm := pm'\<rparr>
                in if policyRegistry (cp w2) \<noteq> prAt w2 then Inl CallFailed
                   else andThen (recordPayout (cpAt w2) (policyId (claims (cp w2) cid)) payout
                                   (pr w2)) (\<lambda>pr'.
                        let w3 = w2\<lparr>pr := pr'\<rparr>
                        in Inr (claim_upd cid (\<lambda>c. c\<lparr>status := Paid\<rparr>) w3)))
         else Inr w1)"

text \<open>
  \<open>_requestRandomReviewer\<close>: the status is set, then the coordinator is called; when
  that call reverts the whole call does (\<open>CallFailed\<close>), otherwise the id it returns is
  mapped to the claim.
\<close>

definition requestRandomReviewer :: "env \<Rightarrow> u256 \<Rightarrow> world \<Rightarrow> error + world" where
  "requestRandomReviewer e cid w =
     (if \<not> 0 < length (activeReviewers (cp w)) then Inl NoActiveReviewers
      else
        let w1 = claim_upd cid (\<lambda>c. c\<lparr>status := UnderReview\<rparr>) w
        in case vrf_requestId e of
             None \<Rightarrow> Inl CallFailed
           | Some requestId \<Rightarrow>
               Inr (w1\<lparr>cp := (cp w1)\<lparr>vrfRequestToClaim :=
                      (vrfRequestToClaim (cp w1))(requestId := cid)\<rparr>\<rparr>))"

definition submitClaim ::
  "env \<Rightarrow> address \<Rightarrow> u256 \<Rightarrow> string \<Rightarrow> string list \<Rightarrow> world \<Rightarrow> error + (u256 \<times> world)" where
  "submitClaim e sender pid descr evidence w =
     (if policyRegistry (cp w) \<noteq> prAt w then Inl CallFailed
      else if \<not> isPolicyValidForClaims (block_timestamp e) pid sender (pr w)
      then Inl InvalidPolicy
      else
        let cid = nextClaimId (cp w)
        in andThen (checked_add (nextClaimId (cp w)) 1) (\<lambda>next.
           let w1 = w\<lparr>cp := (cp w)\<lparr>nextClaimId := next\<rparr>\<rparr>;
               w2 = claim_upd cid (\<lambda>_.
                      \<lparr>claimId = cid, policyId = pid, claimant = sender, description = descr,
                       evidenceHashes = evidence, timestamp = block_timestamp e,
                       status = Submitted, claimType = 0, severity = 0, fraudRisk = 0,
                       recommendedPayout = 0, finalPayout = 0, processedAt = 0,
                       requiresHumanReview = False, assignedReviewer = 0\<rparr>) w1
           in andThen (incrementClaimCount (cpAt w2) pid (pr w2)) (\<lambda>pr'.
              Inr (cid, w2\<lparr>pr := pr'\<rparr>))))"

definition submitAIAnalysis ::
  "env \<Rightarrow> address \<Rightarrow> u256 \<Rightarrow> u8 \<Rightarrow> u8 \<Rightarrow> u8 \<Rightarrow> u256 \<Rightarrow> world \<Rightarrow> error + world" where
  "submitAIAnalysis e sender cid ctype sev risk recommended w =
     (if sender \<noteq> aiOracle (cp w) then Inl OnlyAIOracle
      else if status (claims (cp w) cid) \<noteq> Submitted then Inl InvalidStatus
      else
        let w1 = claim_upd cid (\<lambda>c. c\<lparr>claimType := ctype, severity := sev,
                   fraudRisk := risk, recommendedPayout := recommended,
                   status := AIAnalyzed\<rparr>) w
        in if unat risk < unat (autoApproveThreshold (cp w1)) \<and> 0 < unat recommended
           then approveClaim e cid recommended w1
           else if unat (autoRejectThreshold (cp w1)) < unat risk
           then Inr (claim_upd cid (\<lambda>c. c\<lparr>status := Rejected,
                                          processedAt := block_timestamp e\<rparr>) w1)
           else requestRandomReviewer e cid
                  (claim_upd cid (\<lambda>c. c\<lparr>requiresHumanReview := True\<rparr>) w1))"

definition reviewerApproveClaim ::
  "env \<Rightarrow> address \<Rightarrow> u256 \<Rightarrow> u256 \<Rightarrow> world \<Rightarrow> error + world" where
  "reviewerApproveClaim e sender cid payout w =
     (if \<not> reviewers (cp w) sender then Inl OnlyReviewer
      else if status (claims (cp w) cid) \<noteq> UnderReview then Inl InvalidStatus
      else if assignedReviewer (claims (cp w) cid) \<noteq> sender then Inl NotAssignedReviewer
      else approveClaim e cid payout w)"

definition reviewerRejectClaim ::
  "env \<Rightarrow> address \<Rightarrow> u256 \<Rightarrow> string \<Rightarrow> world \<Rightarrow> error + world" where
  "reviewerRejectClaim e sender cid reason w =
     (if \<not> reviewers (cp w) sender then Inl OnlyReviewer
      else if status (claims (cp w) cid) \<noteq> UnderReview then Inl InvalidStatus
      else if assignedReviewer (claims (cp w) cid) \<noteq> sender then Inl NotAssignedReviewer
      else Inr (claim_upd cid (\<lambda>c. c\<lparr>status := Rejected,
                                     processedAt := block_timestamp e\<rparr>) w))"

datatype cp_call =
    SetPayoutManager address address
  | SetAIOracle address address
  | AddReviewer address address
  | RemoveReviewer address address
  | SetThresholds address u8 u8
  | SubmitClaim address u256 string "string list"
  | SubmitAIAnalysis address u256 u8 u8 u8 u256
  | ReviewerApproveClaim address u256 u256
  | ReviewerRejectClaim address u256 string
  | RawFulfillRandomWords address u256 "u256 list"

definition in_cp :: "(cp_state \<Rightarrow> error + cp_state) \<Rightarrow> world \<Rightarrow> error + world" where
  "in_cp f w = andThen (f (cp w)) (\<lambda>s. Inr (w\<lparr>cp := s\<rparr>))"

fun cp_exec :: "env \<Rightarrow> cp_call \<Rightarrow> world \<Rightarrow> error + world" where
  "cp_exec e (SetPayoutManager sender a) w = in_cp (setPayoutManager sender a) w"
| "cp_exec e (SetAIOracle sender a) w = in_cp (setAIOracle sender a) w"
| "cp_exec e (AddReviewer sender r) w = in_cp (addReviewer sender r) w"
| "cp_exec e (RemoveReviewer sender r) w = in_cp (removeReviewer sender r) w"
| "cp_exec e (SetThresholds sender a r) w = in_cp (setThresholds sender a r) w"
| "cp_exec e (SubmitClaim sender pid descr evidence) w =
     andThen (submitClaim e sender pid descr evidence w) (\<lambda>(cid, w'). Inr w')"
| "cp_exec e (SubmitAIAnalysis sender cid ctype sev risk recommended) w =
     submitAIAnalysis e sender cid ctype sev risk recommended w"
| "cp_exec e (ReviewerApproveClaim sender cid payout) w =
     reviewerApproveClaim e sender cid payout w"
| "cp_exec e (ReviewerRejectClaim sender cid reason) w =
     reviewerRejectClaim e sender cid reason w"
| "cp_exec e (RawFulfillRandomWords sender requestId randomWords) w =
     in_cp (rawFulfillRandomWords sender requestId randomWords) w"

text \<open>Any call to any of the three contracts, as a transaction on the whole system.\<close>

datatype sys_call =
    ClaimsCall env cp_call
  | PayoutCall pm_call
  | PolicyCall u256 pr_call

fun sys_exec :: "sys_call \<Rightarrow> world \<Rightarrow> error + world" where
  "sys_exec (ClaimsCall e c) w = cp_exec e c w"
| "sys_exec (PayoutCall c) w = andThen (pm_exec c (pm w)) (\<lambda>s. Inr (w\<lparr>pm := s\<rparr>))"
| "sys_exec (PolicyCall now c) w = andThen (pr_exec now c (pr w)) (\<lambda>s. Inr (w\<lparr>pr := s\<rparr>))"

definition sys_transact :: "sys_call \<Rightarrow> world \<Rightarrow> world" where
  "sys_transact c w = (case sys_exec c w of Inl e \<Rightarrow> w | Inr w' \<Rightarrow> w')"

fun sys_run :: "sys_call list \<Rightarrow> world \<Rightarrow> world" where
  "sys_run [] w = w"
| "sys_run (c # cs) w = sys_run cs (sys_transact c w)"

section \<open>Vocabulary of the properties\<close>

subsection \<open>Policies\<close>

definition pr_transact :: "u256 \<Rightarrow> pr_call \<Rightarrow> pr_state \<Rightarrow> pr_state" where
  "pr_transact now c s = (case pr_exec now c s of Inl e \<Rightarrow> s | Inr s' \<Rightarrow> s')"

inductive pr_reachable :: "pr_state \<Rightarrow> bool" where
  pr_constructed: "pr_reachable (pr_constructor deployer)"
| pr_called: "pr_reachable s \<Longrightarrow> pr_exec now c s = Inr s' \<Longrightarrow> pr_reachable s'"

text \<open>A policy exists when its id is one that \<open>createPolicy\<close> has handed out.\<close>

definition policy_exists :: "pr_state \<Rightarrow> u256 \<Rightarrow> bool" where
  "policy_exists s pid \<longleftrightarrow> 0 < unat pid \<and> unat pid < unat (nextPolicyId s)"

text \<open>
  Ids below \<open>nextPolicyId\<close> hold a record stored under its own id; every other slot is
  still empty.
\<close>

definition pr_inv :: "pr_state \<Rightarrow> bool" where
  "pr_inv s \<longleftrightarrow> 0 < unat (nextPolicyId s) \<and>
     (\<forall>pid. policy_exists s pid \<longrightarrow> policy_policyId (policies s pid) = pid) \<and>
     (\<forall>pid. \<not> policy_exists s pid \<longrightarrow> policies s pid = emptyPolicy)"

subsection \<open>Claims\<close>

text \<open>
  The three ways \<open>submitAIAnalysis\<close> can end for claim \<open>cid\<close>, each fixing the result
  \<open>r\<close> of the call from the state \<open>w\<close> it starts in.

  Approval: without a PayoutManager the call returns and the claim is \<open>Approved\<close>. With
  one, the call returns exactly when \<open>processPayout\<close> for the claimant and \<open>recordPayout\<close>
  for the claim's policy both do; the claim is then \<open>Paid\<close> and the two contracts are
  in the states these calls left. When one of them reverts, the whole call reverts with
  the same error.

  Rejection: the call returns, the claim is \<open>Rejected\<close>, nothing is paid.

  Review: with no active reviewer the call reverts with \<open>NoActiveReviewers\<close>; when the
  coordinator refuses the request it reverts with \<open>CallFailed\<close>; otherwise it returns,
  the claim is \<open>UnderReview\<close> with \<open>requiresHumanReview\<close> set, and the request id is
  mapped to the claim.
\<close>

definition returns :: "error + world \<Rightarrow> (world \<Rightarrow> bool) \<Rightarrow> bool" where
  "returns r P = (case r of Inl err \<Rightarrow> False | Inr w' \<Rightarrow> P w')"

definition approved_outcome :: "env \<Rightarrow> u256 \<Rightarrow> u256 \<Rightarrow> world \<Rightarrow> error + world \<Rightarrow> bool" where
  "approved_outcome e cid payout w r =
     (if payoutManager (cp w) = 0
      then returns r (\<lambda>w'.
             status (claims (cp w') cid) = Approved \<and>
             finalPayout (claims (cp w') cid) = payout \<and>
             processedAt (claims (cp w') cid) = block_timestamp e \<and>
             pm w' = pm w \<and> pr w' = pr w)
      else if payoutManager (cp w) \<noteq> pmAt w then r = Inl CallFailed
      else
        case processPayout (cpAt w) (block_timestamp e) (feed_answer e) cid
               (claimant (claims (cp w) cid)) payout (pm w) of
          Inl err \<Rightarrow> r = Inl err
        | Inr pm' \<Rightarrow>
            if policyRegistry (cp w) \<noteq> prAt w then r = Inl CallFailed
            else
              case recordPayout (cpAt w) (policyId (claims (cp w) cid)) payout (pr w) of
                Inl err \<Rightarrow> r = Inl err
              | Inr pr' \<Rightarrow>
                  returns r (\<lambda>w'.
                    status (claims (cp w') cid) = Paid \<and>
                    finalPayout (claims (cp w') cid) = payout \<and>
                    processedAt (claims (cp w') cid) = block_timestamp e \<and>
                    pm w' = pm' \<and> pr w' = pr'))"

definition rejected_outcome :: "env \<Rightarrow> u256 \<Rightarrow> world \<Rightarrow> error + world \<Rightarrow> bool" where
  "rejected_outcome e cid w r =
     returns r (\<lambda>w'.
       status (claims (cp w') cid) = Rejected \<and>
       processedAt (claims (cp w') cid) = block_timestamp e \<and>
       pm w' = pm w \<and> pr w' = pr w)"

definition review_outcome :: "env \<Rightarrow> u256 \<Rightarrow> world \<Rightarrow> error + world \<Rightarrow> bool" where
  "review_outcome e cid w r =
     (if activeReviewers (cp w) = [] then r = Inl NoActiveReviewers
      else
        case vrf_requestId e of
          None \<Rightarrow> r = Inl CallFailed
        | Some requestId \<Rightarrow>
            returns r (\<lambda>w'.
              status (claims (cp w') cid) = UnderReview \<and>
              requiresHumanReview (claims (cp w') cid) \<and>
              vrfRequestToClaim (cp w') requestId = cid \<and>
              pm w' = pm w \<and> pr w' = pr w))"

text \<open>
  A system freshly deployed by \<open>deployer\<close>: the three contracts at the addresses
  \<open>a_cp\<close>, \<open>a_pm\<close> and \<open>a_pr\<close>, wired to each other by their constructors.
\<close>

definition deployed ::
  "address \<Rightarrow> address \<Rightarrow> address \<Rightarrow> address \<Rightarrow> address \<Rightarrow> address \<Rightarrow> world" where
  "deployed deployer a_cp a_pm a_pr coordinator feed =
     \<lparr>cpAt = a_cp, cp = cp_constructor deployer coordinator a_pr,
      pmAt = a_pm, pm = pm_constructor deployer a_cp feed,
      prAt = a_pr, pr = pr_constructor deployer\<rparr>"

text \<open>
  A claim is final when it is \<open>Rejected\<close> or \<open>Paid\<close>; it has been created when its id
  is one that \<open>submitClaim\<close> has handed out.
\<close>

definition terminal :: "Claim \<Rightarrow> bool" where
  "terminal c \<longleftrightarrow> status c = Rejected \<or> status c = Paid"

definition claim_created :: "world \<Rightarrow> u256 \<Rightarrow> bool" where
  "claim_created w cid \<longleftrightarrow> 0 < unat cid \<and> unat cid < unat (nextClaimId (cp w))"

text \<open>
  A claim under review whose assigned reviewer \<open>r\<close> is no longer registered, and the two
  calls that can change this: registering \<open>r\<close> again, and a randomness fulfilment for
  a request that is mapped to the claim. A sequence of calls is \<open>undisturbed\<close> when it
  contains neither.
\<close>

definition blocked :: "address \<Rightarrow> u256 \<Rightarrow> world \<Rightarrow> bool" where
  "blocked r cid w \<longleftrightarrow>
     claim_created w cid \<and> status (claims (cp w) cid) = UnderReview \<and>
     assignedReviewer (claims (cp w) cid) = r \<and> \<not> reviewers (cp w) r"

fun rescues :: "address \<Rightarrow> u256 \<Rightarrow> sys_call \<Rightarrow> world \<Rightarrow> bool" where
  "rescues r cid (ClaimsCall e (AddReviewer sender x)) w = (x = r)"
| "rescues r cid (ClaimsCall e (RawFulfillRandomWords sender requestId ws)) w =
     (vrfRequestToClaim (cp w) requestId = cid)"
| "rescues r cid c w = False"

fun undisturbed :: "address \<Rightarrow> u256 \<Rightarrow> sys_call list \<Rightarrow> world \<Rightarrow> bool" where
  "undisturbed r cid [] w = True"
| "undisturbed r cid (c # cs) w =
     (\<not> rescues r cid c w \<and> undisturbed r cid cs (sys_transact c w))"

text \<open>
  The reviewer that a fulfilment with first random word \<open>v\<close> selects in state \<open>s\<close>,
  and the calls that make a new randomness request under the id \<open>requestId\<close>.
\<close>

definition pick_reviewer :: "u256 \<Rightarrow> cp_state \<Rightarrow> address" where
  "pick_reviewer v s =
     (if activeReviewers s = [] then cp_admin s
      else activeReviewers s ! (unat v mod length (activeReviewers s)))"

fun requests :: "u256 \<Rightarrow> sys_call \<Rightarrow> bool" where
  "requests requestId (ClaimsCall e (SubmitAIAnalysis sender cid ct sv rk rp)) =
     (vrf_requestId e = Some requestId)"
| "requests requestId c = False"

text \<open>
  A call that touches the record of claim \<open>a\<close> only: every other claim, the reviewer
  register and the id counter are as before.
\<close>

definition only_claim :: "u256 \<Rightarrow> cp_state \<Rightarrow> cp_state \<Rightarrow> bool" where
  "only_claim a s s' \<longleftrightarrow>
     claims s' = (claims s)(a := claims s' a) \<and> reviewers s' = reviewers s \<and>
     nextClaimId s' = nextClaimId s"

text \<open>
  A sample system: the deployer 1 registers the ClaimsProcessor with the registry,
  creates a policy for holder 7 and adds the reviewers 10 and 11; holder 7 submits
  claim 1. In \<open>review_world\<close> the oracle has sent claim 1 to review, with randomness
  request 7 pending.
\<close>

definition sample_env :: env where
  "sample_env =
     \<lparr>block_timestamp = 2000, feed_answer = 2000000000, vrf_requestId = Some 7\<rparr>"

definition sample_world :: world where
  "sample_world = sys_run
     [PolicyCall 1000 (SetClaimsProcessor 1 100),
      PolicyCall 1000 (CreatePolicy 1 7 10 50000000 1000000 ''home'' 5000),
      ClaimsCall sample_env (AddReviewer 1 10),
      ClaimsCall sample_env (AddReviewer 1 11),
      ClaimsCall sample_env (SubmitClaim 7 1 ''fire'' [''Qm1''])]
     (deployed 1 100 101 102 200 300)"

definition review_world :: world where
  "review_world =
     sys_transact (ClaimsCall sample_env (SubmitAIAnalysis 1 1 1 5 50 1000000)) sample_world"

section \<open>Currency conversion\<close>

lemma sint_pos_unat:
  fixes p :: u256
  assumes "0 < sint p"
  shows "int (unat p) = sint p"
proof -
  have "\<not> bit p (LENGTH(256) - Suc 0)"
    using assms by (simp only: bit_last_iff)
  then have top_clear: "\<not> bit (uint p) 255"
    by (simp add: bit_uint_iff)
  then have low: "sint p = take_bit 255 (uint p)"
    by (simp add: sint_uint signed_take_bit_eq_if_positive)
  have "take_bit LENGTH(256) (uint p) = uint p"
    by (rule take_bit_int_eq_self) (simp_all only: uint_lt2p uint_ge_0)
  then have whole: "take_bit 256 (uint p) = uint p"
    by simp
  have "take_bit 256 (uint p) = take_bit 255 (uint p)"
    using take_bit_Suc_from_most [of 255 "uint p"] top_clear by simp
  with low whole show ?thesis by simp
qed

lemma checked_mul_Inr: "unat a * unat b < 2 ^ 256 \<Longrightarrow> checked_mul a b = Inr (a * b) \<and> unat (a * b) = unat a * unat b"
  by (simp add: checked_mul_def unat_word_ariths)

lemma sint_pos_unat_nat:
  fixes p :: u256
  assumes "0 < sint p"
  shows "unat p = nat (sint p)"
proof -
  have "int (unat p) = sint p" using assms by (rule sint_pos_unat)
  then show ?thesis by (metis nat_int)
qed

lemma unat_e18: "unat (10 ^ 18 :: u256) = 10 ^ 18" by simp
lemma unat_e2: "unat (10 ^ 2 :: u256) = 10 ^ 2" by simp

text \<open>
  C1 (as amended). \<open>convertUSDToAVAX\<close> fails with the invalid-price error when the
  quote is zero or negative. For a positive quote \<open>p\<close> it returns exactly
  \<open>usdAmount * 10^18 div (p * 10^2)\<close> whenever neither product exceeds the range of
  \<open>uint256\<close>, and it reverts with the arithmetic panic of checked multiplication
  otherwise.
\<close>

theorem convertUSDToAVAX_checked:
  "(sint price \<le> 0 \<longrightarrow> convertUSDToAVAX price usd = Inl InvalidPriceData) \<and>
   (0 < sint price \<and> unat usd * 10 ^ 18 < 2 ^ 256 \<and> nat (sint price) * 10 ^ 2 < 2 ^ 256 \<longrightarrow>
      (\<exists>r. convertUSDToAVAX price usd = Inr r \<and>
           unat r = unat usd * 10 ^ 18 div (nat (sint price) * 10 ^ 2))) \<and>
   (0 < sint price \<and> \<not> (unat usd * 10 ^ 18 < 2 ^ 256 \<and> nat (sint price) * 10 ^ 2 < 2 ^ 256) \<longrightarrow>
      convertUSDToAVAX price usd = Inl ArithmeticPanic)"
proof (intro conjI impI)
  assume "sint price \<le> 0"
  then show "convertUSDToAVAX price usd = Inl InvalidPriceData"
    by (simp add: convertUSDToAVAX_def)
next
  assume h: "0 < sint price \<and> unat usd * 10 ^ 18 < 2 ^ 256 \<and> nat (sint price) * 10 ^ 2 < 2 ^ 256"
  then have p: "unat price = nat (sint price)" using sint_pos_unat_nat [of price] by blast
  have n: "checked_mul usd (10 ^ 18) = Inr (usd * 10 ^ 18)" "unat (usd * 10 ^ 18) = unat usd * 10 ^ 18"
    using h checked_mul_Inr [of usd "10 ^ 18"] by (simp_all only: unat_e18)
  have d: "checked_mul price (10 ^ 2) = Inr (price * 10 ^ 2)" "unat (price * 10 ^ 2) = unat price * 10 ^ 2"
    using h p checked_mul_Inr [of price "10 ^ 2"] by (simp_all only: unat_e2)
  have "0 < unat price" using h p by simp
  then have "unat (price * 10 ^ 2) \<noteq> 0" using d(2) by simp
  then have nz: "price * 10 ^ 2 \<noteq> 0" by (metis unat_0)
  have "convertUSDToAVAX price usd = Inr (usd * 10 ^ 18 div (price * 10 ^ 2))"
    using h n(1) d(1) nz by (simp add: convertUSDToAVAX_def andThen_def checked_div_def)
  moreover have "unat (usd * 10 ^ 18 div (price * 10 ^ 2)) = unat usd * 10 ^ 18 div (nat (sint price) * 10 ^ 2)"
    by (simp only: unat_div n(2) d(2) p)
  ultimately show "\<exists>r. convertUSDToAVAX price usd = Inr r \<and>
           unat r = unat usd * 10 ^ 18 div (nat (sint price) * 10 ^ 2)" by blast
next
  assume h: "0 < sint price \<and> \<not> (unat usd * 10 ^ 18 < 2 ^ 256 \<and> nat (sint price) * 10 ^ 2 < 2 ^ 256)"
  then have p: "unat price = nat (sint price)" using sint_pos_unat_nat [of price] by blast
  show "convertUSDToAVAX price usd = Inl ArithmeticPanic"
  proof (cases "unat usd * 10 ^ 18 < (2::nat) ^ 256")
    case False
    then have "checked_mul usd (10 ^ 18) = Inl ArithmeticPanic"
      by (simp only: checked_mul_def unat_e18 if_False)
    then show ?thesis using h by (simp add: convertUSDToAVAX_def andThen_def)
  next
    case True
    then have n: "checked_mul usd (10 ^ 18) = Inr (usd * 10 ^ 18)"
      using checked_mul_Inr [of usd "10 ^ 18"] by (simp only: unat_e18)
    from True h have "\<not> nat (sint price) * 10 ^ 2 < (2::nat) ^ 256" by blast
    then have "\<not> unat price * 10 ^ 2 < (2::nat) ^ 256" by (simp only: p not_False_eq_True)
    then have "checked_mul price (10 ^ 2) = Inl ArithmeticPanic"
      by (simp only: checked_mul_def unat_e2 if_False)
    then show ?thesis using h n by (simp add: convertUSDToAVAX_def andThen_def)
  qed
qed

theorem convertUSDToAVAX_checked_witness:
  "convertUSDToAVAX (- 5) 5000000 = Inl InvalidPriceData \<and>
   (\<exists>r. convertUSDToAVAX 2000000000 7000000 = Inr r \<and> unat r = 35000000000000) \<and>
   convertUSDToAVAX 3 (2 ^ 250) = Inl ArithmeticPanic"
  using convertUSDToAVAX_checked [of "- 5" 5000000]
        convertUSDToAVAX_checked [of 2000000000 7000000]
        convertUSDToAVAX_checked [of 3 "2 ^ 250"]
  by simp

text \<open>
  C1 as stated fails: for the positive quote \<open>1\<close> and the amount \<open>2^255\<close> the
  product \<open>usdAmount * 10^18\<close> leaves \<open>uint256\<close> and the call reverts instead of
  returning the quotient.
\<close>

theorem convertUSDToAVAX_overflow_counterexample:
  "0 < sint (1 :: u256) \<and> convertUSDToAVAX 1 (2 ^ 255) = Inl ArithmeticPanic"
  by (simp add: convertUSDToAVAX_def andThen_def checked_mul_def checked_div_def)

text \<open>
  C2 (code defect). With a \<open>usdAmount\<close> of 5_000_000 and a quote of 2_000_000_000,
  \<open>convertUSDToAVAX\<close> returns 25_000_000_000_000, the value of
  \<open>5_000_000 * 10^18 div (2_000_000_000 * 100)\<close>. The function documents its amounts
  as USD with 6 decimals, a price with 8 decimals and a result in AVAX with 18 decimals:
  5 dollars at 20 dollars per AVAX are 250_000_000_000_000_000 in that scale. The scaling
  of the divisor is where the code leaves its documentation.
\<close>

theorem convertUSDToAVAX_example:
  "convertUSDToAVAX 2000000000 5000000 = Inr 25000000000000"
  by (simp add: convertUSDToAVAX_def andThen_def checked_mul_def checked_div_def)

text \<open>
  The result is neither the 25_000_000_000_000_000 of C2 nor the documented
  250_000_000_000_000_000.
\<close>

theorem convertUSDToAVAX_example_counterexample:
  "convertUSDToAVAX 2000000000 5000000 \<noteq> Inr 25000000000000000 \<and>
   convertUSDToAVAX 2000000000 5000000 \<noteq> Inr 250000000000000000"
  by (simp add: convertUSDToAVAX_def andThen_def checked_mul_def checked_div_def)

section \<open>The payout ledger\<close>

lemma andThen_Inr: "andThen r f = Inr y \<longleftrightarrow> (\<exists>x. r = Inr x \<and> f x = Inr y)"
  by (cases r) (simp_all add: andThen_def)

lemma checked_add_Inr: "checked_add a b = Inr c \<longleftrightarrow> unat a + unat b < 2 ^ 256 \<and> c = a + b"
  by (auto simp: checked_add_def)

lemma checked_sub_Inr: "checked_sub a b = Inr c \<longleftrightarrow> unat b \<le> unat a \<and> c = a - b"
  by (auto simp: checked_sub_def)

lemma unat_checked_add: "unat a + unat b < 2 ^ 256 \<Longrightarrow> unat (a + b :: u256) = unat a + unat b"
  by (simp add: unat_word_ariths)

lemma unat_checked_sub: "unat b \<le> unat a \<Longrightarrow> unat (a - b :: u256) = unat a - unat b"
  by (simp add: unat_sub word_le_nat_alt)

lemma owed_update:
  "owed (s\<lparr>balances := (balances s)(c := v)\<rparr>) + unat (balances s c) = owed s + unat v"
proof -
  have a: "owed s = unat (balances s c) + (\<Sum>a\<in>UNIV - {c}. unat (balances s a))"
    unfolding owed_def by (rule sum.remove) simp_all
  have "owed (s\<lparr>balances := (balances s)(c := v)\<rparr>) =
        unat v + (\<Sum>a\<in>UNIV - {c}. unat (((balances s)(c := v)) a))"
    unfolding owed_def using sum.remove [of UNIV c "\<lambda>a. unat (((balances s)(c := v)) a)"] by simp
  also have "(\<Sum>a\<in>UNIV - {c}. unat (((balances s)(c := v)) a)) = (\<Sum>a\<in>UNIV - {c}. unat (balances s a))"
    by (rule sum.cong) simp_all
  finally have b: "owed (s\<lparr>balances := (balances s)(c := v)\<rparr>) =
        unat v + (\<Sum>a\<in>UNIV - {c}. unat (balances s a))" .
  from a b show ?thesis by linarith
qed

lemma pm_frame_refl: "pm_frame s s"
  by (simp add: pm_frame_def)

lemma pm_frame_trans: "pm_frame s t \<Longrightarrow> pm_frame t u \<Longrightarrow> pm_frame s u"
  by (auto simp: pm_frame_def)

lemma processPayout_Inr:
  assumes "processPayout sender now price cid rcp usd s = Inr s'"
  shows "\<exists>avax. sender = pm_claimsProcessor s \<and> payout_claimId (payouts s cid) = 0 \<and>
           0 < unat usd \<and> convertUSDToAVAX price usd = Inr avax \<and>
           unat avax \<le> unat (availableFunds s) \<and>
           unat (balances s rcp) + unat avax < 2 ^ 256 \<and>
           unat (totalPayouts s) + unat avax < 2 ^ 256 \<and>
           s' = s\<lparr>payouts := (payouts s)(cid :=
                     \<lparr>payout_claimId = cid, recipient = rcp, usdAmount = usd,
                      avaxAmount = avax, payout_timestamp = now, processed = True,
                      withdrawn = False\<rparr>),
                  balances := (balances s)(rcp := balances s rcp + avax),
                  availableFunds := availableFunds s - avax,
                  totalPayouts := totalPayouts s + avax\<rparr>"
  using assms
  by (auto simp: processPayout_def andThen_Inr checked_add_Inr checked_sub_Inr Let_def
           split: if_splits)

lemma owed_other_fields [simp]:
  "owed (s\<lparr>payouts := p\<rparr>) = owed s"
  "owed (s\<lparr>availableFunds := af\<rparr>) = owed s"
  "owed (s\<lparr>totalPayouts := tp\<rparr>) = owed s"
  "owed (s\<lparr>totalWithdrawn := tw\<rparr>) = owed s"
  "owed (s\<lparr>ethBalance := e\<rparr>) = owed s"
  "owed (s\<lparr>deposited := d\<rparr>) = owed s"
  "owed (s\<lparr>swept := w\<rparr>) = owed s"
  "owed (s\<lparr>treasury := t\<rparr>) = owed s"
  "owed (s\<lparr>priceFeed := f\<rparr>) = owed s"
  by (simp_all add: owed_def)

lemma processPayout_frame:
  assumes "processPayout sender now price cid rcp usd s = Inr s'"
  shows "pm_frame s s'"
proof -
  from processPayout_Inr [OF assms] obtain avax where
    z: "payout_claimId (payouts s cid) = 0" and
    af: "unat avax \<le> unat (availableFunds s)" and
    b: "unat (balances s rcp) + unat avax < 2 ^ 256" and
    tp: "unat (totalPayouts s) + unat avax < 2 ^ 256" and
    s': "s' = s\<lparr>payouts := (payouts s)(cid :=
                     \<lparr>payout_claimId = cid, recipient = rcp, usdAmount = usd,
                      avaxAmount = avax, payout_timestamp = now, processed = True,
                      withdrawn = False\<rparr>),
                  balances := (balances s)(rcp := balances s rcp + avax),
                  availableFunds := availableFunds s - avax,
                  totalPayouts := totalPayouts s + avax\<rparr>"
    by blast
  have o: "owed s' + unat (balances s rcp) = owed s + unat (balances s rcp + avax)"
    using owed_update [of s rcp "balances s rcp + avax"] by (simp add: s' owed_def)
  have g: "gap s' = gap s"
    using o by (simp add: gap_def s' unat_checked_add [OF b] unat_checked_add [OF tp])
  have p: "pool_drift s' = pool_drift s"
    using af by (simp add: pool_drift_def s' unat_checked_sub [OF af] unat_checked_add [OF tp])
  show ?thesis
    using z g p by (auto simp: pm_frame_def s')
qed


lemma deposit_Inr:
  assumes "deposit sender v s = Inr s'"
  shows "unat (availableFunds s) + unat v < 2 ^ 256 \<and> unat (ethBalance s) + unat v < 2 ^ 256 \<and>
         s' = s\<lparr>ethBalance := ethBalance s + v, availableFunds := availableFunds s + v,
                deposited := deposited s + unat v\<rparr>"
  using assms
  by (auto simp: deposit_def credit_def andThen_Inr checked_add_Inr split: if_splits)

lemma receive_deposit: "receive sender v s = deposit sender v s"
  by (simp add: receive_def deposit_def)

lemma deposit_frame:
  assumes "deposit sender v s = Inr s'"
  shows "pm_frame s s'"
proof -
  from deposit_Inr [OF assms] have
    af: "unat (availableFunds s) + unat v < 2 ^ 256" and
    s': "s' = s\<lparr>ethBalance := ethBalance s + v, availableFunds := availableFunds s + v,
                deposited := deposited s + unat v\<rparr>"
    by simp_all
  show ?thesis
    by (simp add: pm_frame_def gap_def pool_drift_def s' unat_checked_add [OF af])
qed

lemma setTreasury_frame: "setTreasury sender t s = Inr s' \<Longrightarrow> pm_frame s s'"
  by (auto simp: setTreasury_def pm_frame_def gap_def pool_drift_def split: if_splits)

lemma setPriceFeed_frame: "setPriceFeed sender f s = Inr s' \<Longrightarrow> pm_frame s s'"
  by (auto simp: setPriceFeed_def pm_frame_def gap_def pool_drift_def split: if_splits)

lemma pm_frame_ethBalance [simp]: "pm_frame (s\<lparr>ethBalance := e\<rparr>) s' = pm_frame s s'"
  by (simp add: pm_frame_def gap_def pool_drift_def)

lemma transfer_frame:
  assumes "\<And>u u'. code u = Some u' \<Longrightarrow> pm_frame u u'"
      and "transfer code amount t = Some t'"
  shows "pm_frame t t'"
  using assms by (auto simp: transfer_def split: if_splits dest!: assms(1))

lemma withdraw_Inr:
  assumes "withdraw send sender s = Inr s'"
  shows "\<exists>s2. 0 < unat (balances s sender) \<and>
           send (balances s sender) (s\<lparr>balances := (balances s)(sender := 0)\<rparr>) = Some s2 \<and>
           unat (totalWithdrawn s2) + unat (balances s sender) < 2 ^ 256 \<and>
           s' = s2\<lparr>totalWithdrawn := totalWithdrawn s2 + balances s sender\<rparr>"
  using assms
  by (auto simp: withdraw_def Let_def andThen_Inr checked_add_Inr split: if_splits option.splits)

lemma withdraw_frame:
  assumes send: "\<And>a t t'. send a t = Some t' \<Longrightarrow> pm_frame t t'"
      and "withdraw send sender s = Inr s'"
  shows "pm_frame s s'"
proof -
  let ?b = "balances s sender"
  let ?s1 = "s\<lparr>balances := (balances s)(sender := 0)\<rparr>"
  from withdraw_Inr [OF assms(2)] obtain s2 where
    sent: "send ?b ?s1 = Some s2" and
    tw: "unat (totalWithdrawn s2) + unat ?b < 2 ^ 256" and
    s': "s' = s2\<lparr>totalWithdrawn := totalWithdrawn s2 + ?b\<rparr>"
    by blast
  have f: "pm_frame ?s1 s2" using sent by (rule send)
  have o: "owed ?s1 + unat ?b = owed s"
    using owed_update [of s sender 0] by simp
  from o have "int (owed ?s1) = int (owed s) - int (unat ?b)"
    by linarith
  then have g1: "gap ?s1 = gap s + int (unat ?b)"
    by (simp add: gap_def)
  have g2: "gap s' = gap s2 - int (unat ?b)"
    by (simp add: gap_def s' unat_checked_add [OF tw])
  have "gap s' = gap s" using g1 g2 f by (simp add: pm_frame_def)
  moreover have "pool_drift s' = pool_drift s"
    using f by (simp add: pm_frame_def pool_drift_def s')
  moreover have "pm_claimsProcessor s' = pm_claimsProcessor s"
    using f by (simp add: pm_frame_def s')
  moreover have "\<forall>cid. payout_claimId (payouts s cid) \<noteq> 0 \<longrightarrow> payouts s' cid = payouts s cid"
    using f by (simp add: pm_frame_def s')
  ultimately show ?thesis by (simp add: pm_frame_def)
qed

lemma withdrawToTreasury_Inr:
  assumes "withdrawToTreasury send sender amount s = Inr s'"
  shows "sender = pm_admin s \<and> unat amount \<le> unat (availableFunds s) \<and>
         send amount (s\<lparr>availableFunds := availableFunds s - amount,
                         swept := swept s + unat amount\<rparr>) = Some s'"
  using assms
  by (auto simp: withdrawToTreasury_def Let_def andThen_Inr checked_add_Inr checked_sub_Inr
           split: if_splits option.splits)

lemma withdrawToTreasury_frame:
  assumes send: "\<And>a t t'. send a t = Some t' \<Longrightarrow> pm_frame t t'"
      and "withdrawToTreasury send sender amount s = Inr s'"
  shows "pm_frame s s'"
proof -
  let ?s1 = "s\<lparr>availableFunds := availableFunds s - amount, swept := swept s + unat amount\<rparr>"
  from withdrawToTreasury_Inr [OF assms(2)] have
    af: "unat amount \<le> unat (availableFunds s)" and sent: "send amount ?s1 = Some s'"
    by simp_all
  have "pm_frame s ?s1"
    using af by (simp add: pm_frame_def gap_def pool_drift_def unat_checked_sub [OF af])
  moreover have "pm_frame ?s1 s'" using sent by (rule send)
  ultimately show ?thesis by (rule pm_frame_trans)
qed

lemma pm_exec_frame_aux:
  "(\<forall>s'. pm_exec c s = Inr s' \<longrightarrow> pm_frame s s')"
  "(\<forall>s'. run_callee k s = Some s' \<longrightarrow> pm_frame s s')"
proof (induction c s and k s rule: pm_exec_run_callee.induct)
  case (1 sender now price cid rcp usd s)
  then show ?case by (simp add: processPayout_frame)
next
  case (2 sender k s)
  have "\<And>a t t'. transfer (\<lambda>u. run_callee k u) a t = Some t' \<Longrightarrow> pm_frame t t'"
    by (rule transfer_frame [where code = "\<lambda>u. run_callee k u"]) (use 2 in auto)
  then show ?case by (auto intro: withdraw_frame)
next
  case (3 sender v s)
  then show ?case by (simp add: deposit_frame)
next
  case (4 sender v s)
  then show ?case by (simp add: receive_deposit deposit_frame)
next
  case (5 sender amount k s)
  have "\<And>a t t'. transfer (\<lambda>u. run_callee k u) a t = Some t' \<Longrightarrow> pm_frame t t'"
    by (rule transfer_frame [where code = "\<lambda>u. run_callee k u"]) (use 5 in auto)
  then show ?case by (auto intro: withdrawToTreasury_frame)
next
  case (6 sender t s)
  then show ?case by (simp add: setTreasury_frame)
next
  case (7 sender f s)
  then show ?case by (simp add: setPriceFeed_frame)
next
  case (8 s)
  then show ?case by (simp add: pm_frame_refl)
next
  case (9 s)
  then show ?case by simp
next
  case (10 c k s)
  show ?case
  proof (cases "pm_exec c s")
    case (Inl e)
    then show ?thesis using 10 by simp
  next
    case (Inr t)
    then have "pm_frame s t" using 10 by simp
    then show ?thesis using 10 Inr by (auto intro: pm_frame_trans)
  qed
qed

lemma pm_exec_frame: "pm_exec c s = Inr s' \<Longrightarrow> pm_frame s s'"
  using pm_exec_frame_aux(1) by blast

lemma pm_transact_frame: "pm_frame s (pm_transact c s)"
  by (cases "pm_exec c s") (simp_all add: pm_transact_def pm_frame_refl pm_exec_frame)

lemma pm_run_frame: "pm_frame s (pm_run cs s)"
proof (induction cs arbitrary: s)
  case Nil
  show ?case by (simp add: pm_frame_refl)
next
  case (Cons c cs)
  have "pm_frame s (pm_transact c s)" by (rule pm_transact_frame)
  moreover have "pm_frame (pm_transact c s) (pm_run cs (pm_transact c s))" by (rule Cons.IH)
  ultimately show ?case by (simp add: pm_frame_trans [of s "pm_transact c s"])
qed

lemma owed_constructor: "owed (pm_constructor d a f) = 0"
  by (simp add: owed_def pm_constructor_def)

lemma in_flight_gap:
  "gap (in_flight c s) = gap s + int (unat (balances s c))"
proof -
  have "owed (s\<lparr>balances := (balances s)(c := 0)\<rparr>) + unat (balances s c) = owed s"
    using owed_update [of s c 0] by simp
  then have "int (owed (s\<lparr>balances := (balances s)(c := 0)\<rparr>)) = int (owed s) - int (unat (balances s c))"
    by linarith
  then show ?thesis by (simp add: gap_def in_flight_def)
qed

lemma in_flight_pool: "pool_drift (in_flight c s) = pool_drift s"
  by (simp add: pool_drift_def in_flight_def)

lemma pm_reachable_gap_pool: "pm_reachable s \<Longrightarrow> 0 \<le> gap s \<and> pool_drift s = 0"
proof (induction rule: pm_reachable.induct)
  case (constructed deployer a feed)
  show ?case
    by (simp add: gap_def pool_drift_def owed_constructor) (simp add: pm_constructor_def)
next
  case (called s c s')
  then have "pm_frame s s'" by (simp add: pm_exec_frame)
  with called show ?case by (simp add: pm_frame_def)
next
  case (paying s sender)
  then show ?case by (simp add: in_flight_gap in_flight_pool)
next
  case (sweeping s amount)
  then show ?case
    by (simp add: in_sweep_def gap_def pool_drift_def unat_checked_sub)
qed

text \<open>
  C6 (as amended). In every reachable state of the PayoutManager, also while a recipient
  is being paid, the sum of all balances plus \<open>totalWithdrawn\<close> is at most
  \<open>totalPayouts\<close>, and \<open>availableFunds\<close> equals the cumulative deposits minus
  \<open>totalPayouts\<close> minus what has been swept to the treasury (so that difference is never
  negative); every call, whether it returns or reverts, leads to a reachable state again.
\<close>

theorem ledger_conservation:
  assumes "pm_reachable s"
  shows "owed s + unat (totalWithdrawn s) \<le> unat (totalPayouts s) \<and>
         unat (availableFunds s) + unat (totalPayouts s) + swept s = deposited s \<and>
         pm_reachable (pm_transact c s)"
proof -
  from pm_reachable_gap_pool [OF assms] have "0 \<le> gap s" "pool_drift s = 0" by simp_all
  then have "owed s + unat (totalWithdrawn s) \<le> unat (totalPayouts s)"
    and "unat (availableFunds s) + unat (totalPayouts s) + swept s = deposited s"
    unfolding gap_def pool_drift_def by linarith+
  moreover have "pm_reachable (pm_transact c s)"
    using assms by (cases "pm_exec c s") (auto simp: pm_transact_def intro: pm_reachable.called)
  ultimately show ?thesis by simp
qed


lemma pm_run_reachable: "pm_reachable s \<Longrightarrow> pm_reachable (pm_run cs s)"
proof (induction cs arbitrary: s)
  case Nil
  then show ?case by simp
next
  case (Cons c cs)
  have "pm_reachable (pm_transact c s)"
    using Cons.prems by (cases "pm_exec c s") (auto simp: pm_transact_def intro: pm_reachable.called)
  then show ?case using Cons.IH by simp
qed

lemmas pm_eval =
  pm_transact_def processPayout_def convertUSDToAVAX_def withdraw_def deposit_def receive_def
  credit_def withdrawToTreasury_def setTreasury_def setPriceFeed_def transfer_def andThen_def
  checked_add_def checked_sub_def checked_mul_def checked_div_def pm_constructor_def
  emptyPayout_def Let_def

text \<open>
  C6 as stated fails: after a deposit of 10 and a sweep of 4 to the treasury,
  \<open>availableFunds\<close> is 6 while deposits minus \<open>totalPayouts\<close> is 10.
\<close>

theorem ledger_sweep_counterexample:
  "pm_reachable (pm_run [Deposit 5 10, WithdrawToTreasury 1 4 Accept] (pm_constructor 1 2 3)) \<and>
   int (unat (availableFunds
     (pm_run [Deposit 5 10, WithdrawToTreasury 1 4 Accept] (pm_constructor 1 2 3)))) \<noteq>
   int (deposited
     (pm_run [Deposit 5 10, WithdrawToTreasury 1 4 Accept] (pm_constructor 1 2 3))) -
   int (unat (totalPayouts
     (pm_run [Deposit 5 10, WithdrawToTreasury 1 4 Accept] (pm_constructor 1 2 3))))"
proof -
  have "pm_run [Deposit 5 10, WithdrawToTreasury 1 4 Accept] (pm_constructor 1 2 3) =
        (pm_constructor 1 2 3)\<lparr>availableFunds := 6, ethBalance := 6, deposited := 10, swept := 4\<rparr>"
    by (simp add: pm_eval)
  moreover have "pm_reachable (pm_run [Deposit 5 10, WithdrawToTreasury 1 4 Accept] (pm_constructor 1 2 3))"
    by (rule pm_run_reachable) (rule pm_reachable.constructed)
  ultimately show ?thesis by (simp add: pm_constructor_def)
qed

theorem ledger_conservation_witness:
  "unat (totalPayouts (pm_run [Deposit 5 (10 ^ 18), ProcessPayout 2 0 2000000000 1 7 5000000,
       Withdraw 7 Accept] (pm_constructor 1 2 3))) = 25000000000000 \<and>
   unat (totalWithdrawn (pm_run [Deposit 5 (10 ^ 18), ProcessPayout 2 0 2000000000 1 7 5000000,
       Withdraw 7 Accept] (pm_constructor 1 2 3))) = 25000000000000 \<and>
   owed (pm_run [Deposit 5 (10 ^ 18), ProcessPayout 2 0 2000000000 1 7 5000000,
       Withdraw 7 Accept] (pm_constructor 1 2 3)) = 0"
proof -
  let ?s = "pm_run [Deposit 5 (10 ^ 18), ProcessPayout 2 0 2000000000 1 7 5000000,
       Withdraw 7 Accept] (pm_constructor 1 2 3)"
  have r: "pm_reachable ?s"
    by (rule pm_run_reachable) (rule pm_reachable.constructed)
  have tp: "totalPayouts ?s = 25000000000000" and tw: "totalWithdrawn ?s = 25000000000000"
    by (simp_all add: pm_eval)
  from ledger_conservation [OF r, of "Deposit 5 1"] tp tw show ?thesis by simp
qed


lemma processPayout_again:
  assumes "payout_claimId (payouts s cid) \<noteq> 0"
  shows "processPayout sender now price cid rcp usd s =
           Inl (if sender = pm_claimsProcessor s then PayoutAlreadyProcessed
                else OnlyClaimsProcessor)"
  using assms by (simp add: processPayout_def)

text \<open>
  C4 (as amended). For every claim id other than 0: a successful \<open>processPayout\<close> finds
  no record, creates it, and after any later sequence of calls to the contract the record
  is still the same; every later \<open>processPayout\<close> for this id fails, with the
  duplicate-payout error when the caller is the claims processor and with the caller
  guard's error otherwise, and leaves the state unchanged.
\<close>

theorem payout_unique:
  assumes "cid \<noteq> 0"
      and "processPayout sender now price cid rcp usd s = Inr s1"
  shows "payout_claimId (payouts s cid) = 0 \<and>
         payouts s1 cid =
           \<lparr>payout_claimId = cid, recipient = rcp, usdAmount = usd,
            avaxAmount = avaxAmount (payouts s1 cid), payout_timestamp = now,
            processed = True, withdrawn = False\<rparr> \<and>
         convertUSDToAVAX price usd = Inr (avaxAmount (payouts s1 cid)) \<and>
         payouts (pm_run cs s1) cid = payouts s1 cid \<and>
         pm_exec (ProcessPayout sender' now' price' cid rcp' usd') (pm_run cs s1) =
           Inl (if sender' = pm_claimsProcessor s then PayoutAlreadyProcessed
                else OnlyClaimsProcessor) \<and>
         pm_transact (ProcessPayout sender' now' price' cid rcp' usd') (pm_run cs s1) =
           pm_run cs s1"
proof -
  from processPayout_Inr [OF assms(2)] obtain avax where
    z: "payout_claimId (payouts s cid) = 0" and
    conv: "convertUSDToAVAX price usd = Inr avax" and
    s1: "s1 = s\<lparr>payouts := (payouts s)(cid :=
                     \<lparr>payout_claimId = cid, recipient = rcp, usdAmount = usd,
                      avaxAmount = avax, payout_timestamp = now, processed = True,
                      withdrawn = False\<rparr>),
                  balances := (balances s)(rcp := balances s rcp + avax),
                  availableFunds := availableFunds s - avax,
                  totalPayouts := totalPayouts s + avax\<rparr>"
    by blast
  have rec: "payouts s1 cid =
           \<lparr>payout_claimId = cid, recipient = rcp, usdAmount = usd,
            avaxAmount = avax, payout_timestamp = now, processed = True, withdrawn = False\<rparr>"
    by (simp add: s1)
  then have nz: "payout_claimId (payouts s1 cid) \<noteq> 0" using assms(1) by simp
  have f: "pm_frame s1 (pm_run cs s1)" by (rule pm_run_frame)
  then have keep: "payouts (pm_run cs s1) cid = payouts s1 cid"
    using nz by (simp add: pm_frame_def)
  have cp: "pm_claimsProcessor (pm_run cs s1) = pm_claimsProcessor s"
    using f by (simp add: pm_frame_def s1)
  have again: "pm_exec (ProcessPayout sender' now' price' cid rcp' usd') (pm_run cs s1) =
           Inl (if sender' = pm_claimsProcessor s then PayoutAlreadyProcessed
                else OnlyClaimsProcessor)"
    using processPayout_again [of "pm_run cs s1" cid sender' now' price' rcp' usd'] nz keep cp
    by simp
  then have "pm_transact (ProcessPayout sender' now' price' cid rcp' usd') (pm_run cs s1) =
           pm_run cs s1"
    by (simp add: pm_transact_def)
  with z rec conv keep again show ?thesis by simp
qed

theorem payout_unique_witness:
  "payouts (pm_run [Withdraw 7 Accept, Deposit 5 3]
     (pm_transact (ProcessPayout 2 0 2000000000 1 7 5000000)
        (pm_transact (Deposit 5 (10 ^ 18)) (pm_constructor 1 2 3)))) 1 =
     \<lparr>payout_claimId = 1, recipient = 7, usdAmount = 5000000, avaxAmount = 25000000000000,
      payout_timestamp = 0, processed = True, withdrawn = False\<rparr> \<and>
   pm_exec (ProcessPayout 2 9 2000000000 1 7 5000000)
     (pm_run [Withdraw 7 Accept, Deposit 5 3]
       (pm_transact (ProcessPayout 2 0 2000000000 1 7 5000000)
          (pm_transact (Deposit 5 (10 ^ 18)) (pm_constructor 1 2 3)))) =
     Inl PayoutAlreadyProcessed"
proof -
  let ?s = "pm_transact (Deposit 5 (10 ^ 18)) (pm_constructor 1 2 3)"
  let ?s1 = "pm_transact (ProcessPayout 2 0 2000000000 1 7 5000000) ?s"
  have a: "(1 :: u256) \<noteq> 0" by simp
  have b: "processPayout 2 0 2000000000 1 7 5000000 ?s = Inr ?s1"
    by (simp add: pm_eval)
  have c: "payouts ?s1 1 = \<lparr>payout_claimId = 1, recipient = 7, usdAmount = 5000000, avaxAmount = 25000000000000,
      payout_timestamp = 0, processed = True, withdrawn = False\<rparr>"
    by (simp add: pm_eval)
  have d: "pm_claimsProcessor ?s = 2" by (simp add: pm_eval)
  from payout_unique [OF a b, of "[Withdraw 7 Accept, Deposit 5 3]" 2 9 2000000000 7 5000000] c d
  show ?thesis by simp
qed

text \<open>
  C4 as stated fails for claim id 0, the value the duplicate check takes for "no
  record": a second \<open>processPayout\<close> for id 0 is not rejected and credits the recipient
  a second time.
\<close>

theorem payout_zero_id_counterexample:
  "pm_exec (ProcessPayout 2 0 2000000000 0 7 5000000)
     (pm_run [Deposit 5 (10 ^ 18), ProcessPayout 2 0 2000000000 0 7 5000000]
        (pm_constructor 1 2 3)) \<noteq> Inl PayoutAlreadyProcessed \<and>
   balances (pm_run [Deposit 5 (10 ^ 18), ProcessPayout 2 0 2000000000 0 7 5000000]
        (pm_constructor 1 2 3)) 7 = 25000000000000 \<and>
   balances (pm_run [Deposit 5 (10 ^ 18), ProcessPayout 2 0 2000000000 0 7 5000000,
         ProcessPayout 2 0 2000000000 0 7 5000000] (pm_constructor 1 2 3)) 7 = 50000000000000"
  by (simp add: pm_eval)


lemma withdraw_unfold:
  "pm_exec (Withdraw c k) s =
     (if balances s c = 0 then Inl NoBalanceToWithdraw
      else if unat (ethBalance s) < unat (balances s c) then Inl TransferFailed
      else case run_callee k (in_flight c s) of
             None \<Rightarrow> Inl TransferFailed
           | Some s2 \<Rightarrow>
               andThen (checked_add (totalWithdrawn s2) (balances s c)) (\<lambda>tw.
               Inr (s2\<lparr>totalWithdrawn := tw\<rparr>)))"
  by (simp add: withdraw_def transfer_def in_flight_def Let_def unat_gt_0)

lemma in_flight_balance: "balances (in_flight c s) c = 0"
  by (simp add: in_flight_def)

lemma withdraw_zero_balance: "balances s c = 0 \<Longrightarrow> pm_exec (Withdraw c k) s = Inl NoBalanceToWithdraw"
  by (subst withdraw_unfold) simp

text \<open>
  C3. With a zero balance \<open>withdraw\<close> fails with the no-balance error. With a positive
  balance \<open>b\<close> the recipient's code runs in the state \<open>in_flight\<close>, where the caller's
  balance is already zero: a \<open>withdraw\<close> issued by the caller from there fails with the
  no-balance error, so a \<open>withdraw\<close> whose recipient re-enters first does exactly what
  it does without the re-entry, and \<open>b\<close> leaves the contract once. When the transfer
  fails the call reverts and the caller's balance is still \<open>b\<close>.
\<close>

theorem withdraw_effects_before_transfer:
  "(balances s c = 0 \<longrightarrow> pm_exec (Withdraw c k) s = Inl NoBalanceToWithdraw) \<and>
   (balances s c \<noteq> 0 \<longrightarrow>
      pm_exec (Withdraw c k) s =
        (if unat (ethBalance s) < unat (balances s c) then Inl TransferFailed
         else case run_callee k (in_flight c s) of
                None \<Rightarrow> Inl TransferFailed
              | Some s2 \<Rightarrow>
                  andThen (checked_add (totalWithdrawn s2) (balances s c)) (\<lambda>tw.
                  Inr (s2\<lparr>totalWithdrawn := tw\<rparr>))) \<and>
      balances (in_flight c s) c = 0 \<and>
      pm_exec (Withdraw c k') (in_flight c s) = Inl NoBalanceToWithdraw \<and>
      pm_exec (Withdraw c (Reenter (Withdraw c k') k)) s = pm_exec (Withdraw c k) s \<and>
      pm_exec (Withdraw c (Reenter (Withdraw c k') Accept)) s =
        (if unat (ethBalance s) < unat (balances s c) then Inl TransferFailed
         else if unat (totalWithdrawn s) + unat (balances s c) < 2 ^ 256
         then Inr (s\<lparr>balances := (balances s)(c := 0),
                     ethBalance := ethBalance s - balances s c,
                     totalWithdrawn := totalWithdrawn s + balances s c\<rparr>)
         else Inl ArithmeticPanic) \<and>
      (pm_exec (Withdraw c k) s = Inl TransferFailed \<longrightarrow>
         pm_transact (Withdraw c k) s = s \<and>
         balances (pm_transact (Withdraw c k) s) c = balances s c))"
proof (intro conjI impI)
  assume "balances s c = 0"
  then show "pm_exec (Withdraw c k) s = Inl NoBalanceToWithdraw"
    by (rule withdraw_zero_balance)
next
  assume "balances s c \<noteq> 0"
  then show "pm_exec (Withdraw c k) s =
        (if unat (ethBalance s) < unat (balances s c) then Inl TransferFailed
         else case run_callee k (in_flight c s) of
                None \<Rightarrow> Inl TransferFailed
              | Some s2 \<Rightarrow>
                  andThen (checked_add (totalWithdrawn s2) (balances s c)) (\<lambda>tw.
                  Inr (s2\<lparr>totalWithdrawn := tw\<rparr>)))"
    by (subst withdraw_unfold) simp
next
  show "balances (in_flight c s) c = 0" by (rule in_flight_balance)
next
  show inner: "pm_exec (Withdraw c k') (in_flight c s) = Inl NoBalanceToWithdraw"
    by (rule withdraw_zero_balance) (rule in_flight_balance)
next
  have inner: "\<And>j. pm_exec (Withdraw c j) (in_flight c s) = Inl NoBalanceToWithdraw"
    by (rule withdraw_zero_balance) (rule in_flight_balance)
  have "run_callee (Reenter (Withdraw c k') k) (in_flight c s) = run_callee k (in_flight c s)"
    by (simp only: run_callee.simps inner sum.case)
  then show "pm_exec (Withdraw c (Reenter (Withdraw c k') k)) s = pm_exec (Withdraw c k) s"
    by (simp only: withdraw_unfold)
next
  have inner: "\<And>j. pm_exec (Withdraw c j) (in_flight c s) = Inl NoBalanceToWithdraw"
    by (rule withdraw_zero_balance) (rule in_flight_balance)
  have "run_callee (Reenter (Withdraw c k') Accept) (in_flight c s) = Some (in_flight c s)"
    by (simp only: run_callee.simps inner sum.case)
  moreover assume "balances s c \<noteq> 0"
  ultimately show "pm_exec (Withdraw c (Reenter (Withdraw c k') Accept)) s =
        (if unat (ethBalance s) < unat (balances s c) then Inl TransferFailed
         else if unat (totalWithdrawn s) + unat (balances s c) < 2 ^ 256
         then Inr (s\<lparr>balances := (balances s)(c := 0),
                     ethBalance := ethBalance s - balances s c,
                     totalWithdrawn := totalWithdrawn s + balances s c\<rparr>)
         else Inl ArithmeticPanic)"
    by (subst withdraw_unfold) (simp add: andThen_def checked_add_def in_flight_def)
next
  assume "pm_exec (Withdraw c k) s = Inl TransferFailed"
  then show "pm_transact (Withdraw c k) s = s" by (simp add: pm_transact_def)
next
  assume "pm_exec (Withdraw c k) s = Inl TransferFailed"
  then show "balances (pm_transact (Withdraw c k) s) c = balances s c"
    by (simp add: pm_transact_def)
qed

theorem withdraw_effects_before_transfer_witness:
  "pm_exec (Withdraw 8 Accept) (pm_constructor 1 2 3) = Inl NoBalanceToWithdraw \<and>
   pm_exec (Withdraw 7 (Reenter (Withdraw 7 Accept) Accept))
     (pm_run [Deposit 5 (10 ^ 18), ProcessPayout 2 0 2000000000 1 7 5000000]
        (pm_constructor 1 2 3)) =
   Inr ((pm_run [Deposit 5 (10 ^ 18), ProcessPayout 2 0 2000000000 1 7 5000000]
        (pm_constructor 1 2 3))
        \<lparr>balances := (\<lambda>_. 0), ethBalance := 999975000000000000,
          totalWithdrawn := 25000000000000\<rparr>) \<and>
   balances (pm_transact (Withdraw 7 Refuse)
     (pm_run [Deposit 5 (10 ^ 18), ProcessPayout 2 0 2000000000 1 7 5000000]
        (pm_constructor 1 2 3))) 7 = 25000000000000"
proof -
  define s0 where "s0 = pm_run [Deposit 5 (10 ^ 18), ProcessPayout 2 0 2000000000 1 7 5000000]
        (pm_constructor 1 2 3)"
  have b: "balances s0 = (\<lambda>_. 0)(7 := 25000000000000)" and e: "ethBalance s0 = 10 ^ 18"
    and w: "totalWithdrawn s0 = 0"
    by (simp_all add: s0_def pm_eval)
  have nz: "balances s0 7 \<noteq> 0" by (simp add: b)
  have z: "balances (pm_constructor 1 2 3) 8 = 0" by (simp add: pm_constructor_def)
  have f: "pm_exec (Withdraw 7 Refuse) s0 = Inl TransferFailed"
    by (subst withdraw_unfold) (simp add: b e)
  from withdraw_effects_before_transfer [of "pm_constructor 1 2 3" 8 Accept Accept] z
  have 1: "pm_exec (Withdraw 8 Accept) (pm_constructor 1 2 3) = Inl NoBalanceToWithdraw"
    by blast
  from withdraw_effects_before_transfer [of s0 7 Accept Accept] nz
  have "pm_exec (Withdraw 7 (Reenter (Withdraw 7 Accept) Accept)) s0 =
        (if unat (ethBalance s0) < unat (balances s0 7) then Inl TransferFailed
         else if unat (totalWithdrawn s0) + unat (balances s0 7) < 2 ^ 256
         then Inr (s0\<lparr>balances := (balances s0)(7 := 0),
                     ethBalance := ethBalance s0 - balances s0 7,
                     totalWithdrawn := totalWithdrawn s0 + balances s0 7\<rparr>)
         else Inl ArithmeticPanic)"
    by blast
  also have "\<dots> = Inr (s0\<lparr>balances := (\<lambda>_. 0), ethBalance := 999975000000000000,
          totalWithdrawn := 25000000000000\<rparr>)"
    by (simp add: b e w fun_upd_idem)
  finally have 2: "pm_exec (Withdraw 7 (Reenter (Withdraw 7 Accept) Accept)) s0 =
      Inr (s0\<lparr>balances := (\<lambda>_. 0), ethBalance := 999975000000000000,
          totalWithdrawn := 25000000000000\<rparr>)" .
  from withdraw_effects_before_transfer [of s0 7 Refuse Accept] nz f
  have "balances (pm_transact (Withdraw 7 Refuse) s0) 7 = balances s0 7"
    by blast
  then have 3: "balances (pm_transact (Withdraw 7 Refuse) s0) 7 = 25000000000000"
    by (simp only: b fun_upd_same)
  from 1 2 3 show ?thesis by (simp only: s0_def simp_thms)
qed

section \<open>The policy window\<close>

lemma pr_inv_constructor: "pr_inv (pr_constructor d)"
  by (auto simp: pr_inv_def pr_constructor_def policy_exists_def)

lemma unat_succ: "unat (a :: u256) + unat (1 :: u256) < 2 ^ 256 \<Longrightarrow> unat (a + 1) = unat a + 1"
  by (simp add: unat_word_ariths)

lemma createPolicy_inv:
  assumes "pr_inv s" and "createPolicy sender now holder prem cov ded ptype duration s = Inr (pid, s')"
  shows "pr_inv s'"
proof -
  from assms(2) have
    n: "unat (nextPolicyId s) + unat (1 :: u256) < 2 ^ 256" and
    pid: "pid = nextPolicyId s" and
    nx: "nextPolicyId s' = nextPolicyId s + 1" and
    pol: "\<exists>p. policies s' = (policies s)(pid := p) \<and> policy_policyId p = pid"
    by (auto simp: createPolicy_def andThen_Inr checked_add_Inr Let_def split: if_splits)
  have u: "unat (nextPolicyId s') = unat (nextPolicyId s) + 1"
    using unat_succ [OF n] nx by simp
  from pol obtain p where p: "policies s' = (policies s)(pid := p)" "policy_policyId p = pid"
    by blast
  have ex: "policy_exists s' q \<longleftrightarrow> policy_exists s q \<or> q = pid" for q
    using u assms(1) pid by (auto simp: policy_exists_def pr_inv_def word_unat_eq_iff)
  have nex: "\<not> policy_exists s pid" using pid by (simp add: policy_exists_def)
  show ?thesis
    unfolding pr_inv_def
  proof (intro conjI allI impI)
    show "0 < unat (nextPolicyId s')" using u by simp
  next
    fix q
    assume "policy_exists s' q"
    then show "policy_policyId (policies s' q) = q"
      using assms(1) p nex by (cases "q = pid") (auto simp: ex pr_inv_def)
  next
    fix q
    assume "\<not> policy_exists s' q"
    then show "policies s' q = emptyPolicy"
      using assms(1) p nex by (cases "q = pid") (auto simp: ex pr_inv_def)
  qed
qed

lemma policy_exists_next:
  "nextPolicyId s' = nextPolicyId s \<Longrightarrow> policy_exists s' = policy_exists s"
  by (rule ext) (simp add: policy_exists_def)

lemma emptyPolicy_inactive: "\<not> isActive emptyPolicy"
  by (simp add: emptyPolicy_def)

lemma pr_inv_policy_update:
  assumes "pr_inv s" and "isActive (policies s pid)"
      and "policy_policyId p = policy_policyId (policies s pid)"
      and "nextPolicyId s' = nextPolicyId s" and "policies s' = (policies s)(pid := p)"
  shows "pr_inv s'"
proof -
  have ex: "policy_exists s pid"
    using assms(1,2) emptyPolicy_inactive by (auto simp: pr_inv_def)
  show ?thesis
    using assms ex by (auto simp: pr_inv_def policy_exists_next [OF assms(4)])
qed

lemma pr_exec_inv:
  assumes "pr_inv s" and "pr_exec now c s = Inr s'"
  shows "pr_inv s'"
proof (cases c)
  case (SetClaimsProcessor sender a)
  then have "s' = s\<lparr>pr_claimsProcessor := a\<rparr>"
    using assms(2) by (auto simp: setClaimsProcessor_def split: if_splits)
  then show ?thesis using assms(1) by (simp add: pr_inv_def policy_exists_def)
next
  case (CreatePolicy sender holder prem cov ded ptype duration)
  then show ?thesis using assms
    by (auto simp: andThen_Inr dest: createPolicy_inv)
next
  case (UpdatePolicy sender pid prem cov ded duration)
  then have "isActive (policies s pid) \<and>
      policy_policyId (policies s' pid) = policy_policyId (policies s pid) \<and>
      nextPolicyId s' = nextPolicyId s \<and>
      policies s' = (policies s)(pid := policies s' pid)"
    using assms(2)
    by (auto simp: updatePolicy_def andThen_Inr Let_def split: if_splits)
  then show ?thesis using assms(1) pr_inv_policy_update [of s pid "policies s' pid" s'] by blast
next
  case (CancelPolicy sender pid)
  then have "isActive (policies s pid) \<and>
      policy_policyId (policies s' pid) = policy_policyId (policies s pid) \<and>
      nextPolicyId s' = nextPolicyId s \<and>
      policies s' = (policies s)(pid := policies s' pid)"
    using assms(2)
    by (auto simp: cancelPolicy_def split: if_splits)
  then show ?thesis using assms(1) pr_inv_policy_update [of s pid "policies s' pid" s'] by blast
next
  case (IncrementClaimCount sender pid)
  then have "isActive (policies s pid) \<and>
      policy_policyId (policies s' pid) = policy_policyId (policies s pid) \<and>
      nextPolicyId s' = nextPolicyId s \<and>
      policies s' = (policies s)(pid := policies s' pid)"
    using assms(2)
    by (auto simp: incrementClaimCount_def andThen_Inr split: if_splits)
  then show ?thesis using assms(1) pr_inv_policy_update [of s pid "policies s' pid" s'] by blast
next
  case (RecordPayout sender pid amount)
  then have "isActive (policies s pid) \<and>
      policy_policyId (policies s' pid) = policy_policyId (policies s pid) \<and>
      nextPolicyId s' = nextPolicyId s \<and>
      policies s' = (policies s)(pid := policies s' pid)"
    using assms(2)
    by (auto simp: recordPayout_def andThen_Inr split: if_splits)
  then show ?thesis using assms(1) pr_inv_policy_update [of s pid "policies s' pid" s'] by blast
qed

lemma pr_reachable_inv: "pr_reachable s \<Longrightarrow> pr_inv s"
  by (induction rule: pr_reachable.induct) (auto intro: pr_inv_constructor pr_exec_inv)

text \<open>
  C8 (as amended). In every reachable state of the PolicyRegistry,
  \<open>isPolicyValidForClaims(policyId, claimant)\<close> is true iff the policy exists, its
  policyholder is the claimant, it is active, and the current time lies in the closed
  window from \<open>startDate\<close> to \<open>endDate\<close>, both ends included.
\<close>

theorem isPolicyValidForClaims_closed_window:
  assumes "pr_reachable s"
  shows "isPolicyValidForClaims now pid clmnt s \<longleftrightarrow>
           policy_exists s pid \<and> policyholder (policies s pid) = clmnt \<and>
           isActive (policies s pid) \<and>
           unat (startDate (policies s pid)) \<le> unat now \<and>
           unat now \<le> unat (endDate (policies s pid))"
proof -
  from pr_reachable_inv [OF assms] have
    inv: "if policy_exists s pid then policy_policyId (policies s pid) = pid
          else policies s pid = emptyPolicy"
    by (simp add: pr_inv_def)
  show ?thesis
  proof (cases "policy_exists s pid")
    case True
    with inv show ?thesis by (simp add: isPolicyValidForClaims_def Let_def)
  next
    case False
    with inv have "\<not> isActive (policies s pid)" by (simp add: emptyPolicy_def)
    with False show ?thesis by (simp add: isPolicyValidForClaims_def Let_def)
  qed
qed

lemmas pr_eval =
  pr_transact_def pr_constructor_def createPolicy_def setClaimsProcessor_def updatePolicy_def
  cancelPolicy_def incrementClaimCount_def recordPayout_def andThen_def checked_add_def
  emptyPolicy_def Let_def

text \<open>
  C8 as stated fails: a policy created at time 100 for 50 seconds ends at 150 and is
  still valid for claims at time 150.
\<close>

theorem isPolicyValidForClaims_end_counterexample:
  "endDate (policies (pr_transact 100 (CreatePolicy 1 7 10 50000000 1000000 ''home'' 50)
      (pr_constructor 1)) 1) = 150 \<and>
   isPolicyValidForClaims 150 1 7
     (pr_transact 100 (CreatePolicy 1 7 10 50000000 1000000 ''home'' 50) (pr_constructor 1))"
  by (simp add: pr_eval isPolicyValidForClaims_def)

theorem isPolicyValidForClaims_closed_window_witness:
  "isPolicyValidForClaims 150 1 7
     (pr_transact 100 (CreatePolicy 1 7 10 50000000 1000000 ''home'' 50) (pr_constructor 1)) \<and>
   \<not> isPolicyValidForClaims 151 1 7
     (pr_transact 100 (CreatePolicy 1 7 10 50000000 1000000 ''home'' 50) (pr_constructor 1)) \<and>
   \<not> isPolicyValidForClaims 120 2 7
     (pr_transact 100 (CreatePolicy 1 7 10 50000000 1000000 ''home'' 50) (pr_constructor 1))"
proof -
  define s where "s = pr_transact 100 (CreatePolicy 1 7 10 50000000 1000000 ''home'' 50) (pr_constructor 1)"
  have ex: "pr_exec 100 (CreatePolicy 1 7 10 50000000 1000000 ''home'' 50) (pr_constructor 1) = Inr s"
    by (simp add: s_def pr_eval)
  have r: "pr_reachable s"
    by (rule pr_reachable.pr_called [OF pr_reachable.pr_constructed ex])
  have f: "nextPolicyId s = 2" "policyholder (policies s 1) = 7" "isActive (policies s 1)"
    "startDate (policies s 1) = 100" "endDate (policies s 1) = 150"
    by (simp_all add: s_def pr_eval)
  have "isPolicyValidForClaims 150 1 7 s"
    using isPolicyValidForClaims_closed_window [OF r, of 150 1 7] f
    by (simp add: policy_exists_def)
  moreover have "\<not> isPolicyValidForClaims 151 1 7 s"
    using isPolicyValidForClaims_closed_window [OF r, of 151 1 7] f
    by (simp add: policy_exists_def)
  moreover have "\<not> isPolicyValidForClaims 120 2 7 s"
    using isPolicyValidForClaims_closed_window [OF r, of 120 2 7] f
    by (simp add: policy_exists_def)
  ultimately show ?thesis by (simp only: s_def simp_thms)
qed

section \<open>Routing of a risk report\<close>

lemma claim_upd_claims [simp]:
  "claims (cp (claim_upd cid f w)) = (claims (cp w))(cid := f (claims (cp w) cid))"
  by (simp add: claim_upd_def)

lemma claim_upd_fields [simp]:
  "payoutManager (cp (claim_upd cid f w)) = payoutManager (cp w)"
  "policyRegistry (cp (claim_upd cid f w)) = policyRegistry (cp w)"
  "activeReviewers (cp (claim_upd cid f w)) = activeReviewers (cp w)"
  "reviewers (cp (claim_upd cid f w)) = reviewers (cp w)"
  "nextClaimId (cp (claim_upd cid f w)) = nextClaimId (cp w)"
  "vrfRequestToClaim (cp (claim_upd cid f w)) = vrfRequestToClaim (cp w)"
  "autoApproveThreshold (cp (claim_upd cid f w)) = autoApproveThreshold (cp w)"
  "autoRejectThreshold (cp (claim_upd cid f w)) = autoRejectThreshold (cp w)"
  "aiOracle (cp (claim_upd cid f w)) = aiOracle (cp w)"
  "cp_admin (cp (claim_upd cid f w)) = cp_admin (cp w)"
  "vrfCoordinator (cp (claim_upd cid f w)) = vrfCoordinator (cp w)"
  "pm (claim_upd cid f w) = pm w"
  "pr (claim_upd cid f w) = pr w"
  "cpAt (claim_upd cid f w) = cpAt w"
  "pmAt (claim_upd cid f w) = pmAt w"
  "prAt (claim_upd cid f w) = prAt w"
  by (simp_all add: claim_upd_def)

lemma approveClaim_outcome:
  "approved_outcome e cid payout w (approveClaim e cid payout w)"
  by (simp add: approved_outcome_def approveClaim_def returns_def Let_def andThen_def
           split: sum.splits)

lemma approved_outcome_upd:
  assumes "claimant (f (claims (cp w) cid)) = claimant (claims (cp w) cid)"
      and "policyId (f (claims (cp w) cid)) = policyId (claims (cp w) cid)"
  shows "approved_outcome e cid payout (claim_upd cid f w) r = approved_outcome e cid payout w r"
  using assms by (simp add: approved_outcome_def split: sum.splits)

lemma requestRandomReviewer_outcome:
  assumes "requiresHumanReview (claims (cp w) cid)"
  shows "review_outcome e cid w (requestRandomReviewer e cid w)"
  using assms
  by (simp add: review_outcome_def requestRandomReviewer_def returns_def Let_def
           split: option.splits)

lemma review_outcome_upd:
  "review_outcome e cid (claim_upd cid f w) r = review_outcome e cid w r"
  by (simp add: review_outcome_def split: option.splits)

lemma submitAIAnalysis_approve:
  assumes "status (claims (cp w) cid) = Submitted" and "sender = aiOracle (cp w)"
      and "unat risk < unat (autoApproveThreshold (cp w))" and "0 < unat rp"
  shows "approved_outcome e cid rp w (submitAIAnalysis e sender cid ct sv risk rp w)"
proof -
  let ?f = "\<lambda>c. c\<lparr>claimType := ct, severity := sv, fraudRisk := risk,
                   recommendedPayout := rp, status := AIAnalyzed\<rparr>"
  let ?w1 = "claim_upd cid ?f w"
  have "submitAIAnalysis e sender cid ct sv risk rp w = approveClaim e cid rp ?w1"
    using assms by (simp add: submitAIAnalysis_def Let_def)
  moreover have "approved_outcome e cid rp ?w1 (approveClaim e cid rp ?w1)"
    by (rule approveClaim_outcome)
  moreover have "approved_outcome e cid rp ?w1 r = approved_outcome e cid rp w r" for r
    by (rule approved_outcome_upd) simp_all
  ultimately show ?thesis by simp
qed

lemma submitAIAnalysis_reject:
  assumes "status (claims (cp w) cid) = Submitted" and "sender = aiOracle (cp w)"
      and "\<not> (unat risk < unat (autoApproveThreshold (cp w)) \<and> 0 < unat rp)"
      and "unat (autoRejectThreshold (cp w)) < unat risk"
  shows "rejected_outcome e cid w (submitAIAnalysis e sender cid ct sv risk rp w)"
  using assms by (auto simp: submitAIAnalysis_def Let_def rejected_outcome_def returns_def)

lemma submitAIAnalysis_review:
  assumes "status (claims (cp w) cid) = Submitted" and "sender = aiOracle (cp w)"
      and "\<not> (unat risk < unat (autoApproveThreshold (cp w)) \<and> 0 < unat rp)"
      and "\<not> unat (autoRejectThreshold (cp w)) < unat risk"
  shows "review_outcome e cid w (submitAIAnalysis e sender cid ct sv risk rp w)"
proof -
  let ?w1 = "claim_upd cid (\<lambda>c. c\<lparr>claimType := ct, severity := sv,
                   fraudRisk := risk, recommendedPayout := rp,
                   status := AIAnalyzed\<rparr>) w"
  let ?w2 = "claim_upd cid (\<lambda>c. c\<lparr>requiresHumanReview := True\<rparr>) ?w1"
  have "submitAIAnalysis e sender cid ct sv risk rp w = requestRandomReviewer e cid ?w2"
    using assms by (auto simp: submitAIAnalysis_def Let_def)
  moreover have "review_outcome e cid ?w2 (requestRandomReviewer e cid ?w2)"
    by (rule requestRandomReviewer_outcome) simp
  ultimately show ?thesis by (simp only: review_outcome_upd)
qed

text \<open>
  C5 (as amended). For a \<open>Submitted\<close> claim and the oracle as caller, \<open>submitAIAnalysis\<close>
  tests approval first, rejection second, and sends the claim to review last; both
  comparisons are strict. With the thresholds 20 and 70: a fraud risk of 19 with a
  positive recommended payout takes the approval path, which leaves the claim \<open>Approved\<close>
  when no PayoutManager is set and \<open>Paid\<close> when the payout and its recording succeed,
  and reverts with the error of the failing call otherwise, leaving the claim
  \<open>Submitted\<close>; 70 goes to human review and is not rejected (\<open>UnderReview\<close>,
  \<open>requiresHumanReview\<close> set, unless there is no active reviewer or the coordinator
  refuses the request, when the call reverts); 71 is rejected.
\<close>

theorem submitAIAnalysis_routing:
  assumes "status (claims (cp w) cid) = Submitted" and "sender = aiOracle (cp w)"
  shows
    "(unat risk < unat (autoApproveThreshold (cp w)) \<and> 0 < unat rp \<longrightarrow>
        approved_outcome e cid rp w (submitAIAnalysis e sender cid ct sv risk rp w)) \<and>
     (\<not> (unat risk < unat (autoApproveThreshold (cp w)) \<and> 0 < unat rp) \<and>
      unat (autoRejectThreshold (cp w)) < unat risk \<longrightarrow>
        rejected_outcome e cid w (submitAIAnalysis e sender cid ct sv risk rp w)) \<and>
     (\<not> (unat risk < unat (autoApproveThreshold (cp w)) \<and> 0 < unat rp) \<and>
      \<not> unat (autoRejectThreshold (cp w)) < unat risk \<longrightarrow>
        review_outcome e cid w (submitAIAnalysis e sender cid ct sv risk rp w)) \<and>
     (autoApproveThreshold (cp w) = 20 \<and> autoRejectThreshold (cp w) = 70 \<longrightarrow>
        (0 < unat rp \<longrightarrow>
           approved_outcome e cid rp w (submitAIAnalysis e sender cid ct sv 19 rp w)) \<and>
        review_outcome e cid w (submitAIAnalysis e sender cid ct sv 70 rp w) \<and>
        rejected_outcome e cid w (submitAIAnalysis e sender cid ct sv 71 rp w))"
proof (intro conjI impI)
  assume "unat risk < unat (autoApproveThreshold (cp w)) \<and> 0 < unat rp"
  then show "approved_outcome e cid rp w (submitAIAnalysis e sender cid ct sv risk rp w)"
    using assms by (simp add: submitAIAnalysis_approve)
next
  assume "\<not> (unat risk < unat (autoApproveThreshold (cp w)) \<and> 0 < unat rp) \<and>
      unat (autoRejectThreshold (cp w)) < unat risk"
  then show "rejected_outcome e cid w (submitAIAnalysis e sender cid ct sv risk rp w)"
    using assms by (simp add: submitAIAnalysis_reject)
next
  assume "\<not> (unat risk < unat (autoApproveThreshold (cp w)) \<and> 0 < unat rp) \<and>
      \<not> unat (autoRejectThreshold (cp w)) < unat risk"
  then show "review_outcome e cid w (submitAIAnalysis e sender cid ct sv risk rp w)"
    using assms by (simp add: submitAIAnalysis_review)
next
  assume "autoApproveThreshold (cp w) = 20 \<and> autoRejectThreshold (cp w) = 70" "0 < unat rp"
  then show "approved_outcome e cid rp w (submitAIAnalysis e sender cid ct sv 19 rp w)"
    using assms by (simp add: submitAIAnalysis_approve)
next
  assume "autoApproveThreshold (cp w) = 20 \<and> autoRejectThreshold (cp w) = 70"
  then show "review_outcome e cid w (submitAIAnalysis e sender cid ct sv 70 rp w)"
    using assms by (simp add: submitAIAnalysis_review)
next
  assume "autoApproveThreshold (cp w) = 20 \<and> autoRejectThreshold (cp w) = 70"
  then show "rejected_outcome e cid w (submitAIAnalysis e sender cid ct sv 71 rp w)"
    using assms by (simp add: submitAIAnalysis_reject)
qed

lemmas sys_eval =
  sys_transact_def deployed_def cp_constructor_def emptyClaim_def in_cp_def
  setPayoutManager_def setAIOracle_def addReviewer_def removeReviewer_def setThresholds_def
  submitClaim_def submitAIAnalysis_def reviewerApproveClaim_def reviewerRejectClaim_def
  approveClaim_def requestRandomReviewer_def fulfillRandomWords_def
  rawFulfillRandomWords_def claim_upd_def isPolicyValidForClaims_def

lemma sample_world_cp:
  "cp sample_world = (cp_constructor 1 200 102)\<lparr>
    claims := (\<lambda>_. emptyClaim)(1 := \<lparr>claimId = 1, policyId = 1, claimant = 7,
                 description = ''fire'', evidenceHashes = [''Qm1''], timestamp = 2000,
                 status = Submitted, claimType = 0, severity = 0, fraudRisk = 0,
                 recommendedPayout = 0, finalPayout = 0, processedAt = 0,
                 requiresHumanReview = False, assignedReviewer = 0\<rparr>),
    reviewers := (\<lambda>_. False)(10 := True, 11 := True),
    activeReviewers := [10, 11], nextClaimId := 2\<rparr>"
  by (simp add: sample_world_def sample_env_def sys_eval pr_eval)

lemma sample_world_rest:
  "cpAt sample_world = 100" "pmAt sample_world = 101" "prAt sample_world = 102"
  "pm sample_world = pm_constructor 1 100 300"
  by (simp_all add: sample_world_def sample_env_def sys_eval pr_eval)

lemma review_world_cp:
  "cp review_world = (cp sample_world)\<lparr>
    claims := (\<lambda>_. emptyClaim)(1 := \<lparr>claimId = 1, policyId = 1, claimant = 7,
                 description = ''fire'', evidenceHashes = [''Qm1''], timestamp = 2000,
                 status = UnderReview, claimType = 1, severity = 5, fraudRisk = 50,
                 recommendedPayout = 1000000, finalPayout = 0, processedAt = 0,
                 requiresHumanReview = True, assignedReviewer = 0\<rparr>),
    vrfRequestToClaim := (\<lambda>_. 0)(7 := 1)\<rparr>"
  by (simp add: review_world_def sample_world_cp sample_env_def sys_transact_def
        submitAIAnalysis_def requestRandomReviewer_def claim_upd_def cp_constructor_def Let_def)

lemma sample_world_pr:
  "pr sample_world = (pr_constructor 1)\<lparr>
     policies := (\<lambda>_. emptyPolicy)(1 := \<lparr>policy_policyId = 1, policyholder = 7, premium = 10,
        coverage = 50000000, deductible = 1000000, policyType = ''home'', startDate = 1000,
        endDate = 6000, isActive = True, claimsCount = 1, policy_totalPayouts = 0\<rparr>),
     userPolicies := (\<lambda>_. [])(7 := [1]), nextPolicyId := 2, pr_claimsProcessor := 100\<rparr>"
  by (simp add: sample_world_def sample_env_def sys_eval pr_eval)

lemma unfunded_world:
  "cp (sys_transact (ClaimsCall sample_env (SetPayoutManager 1 101)) sample_world) =
     (cp sample_world)\<lparr>payoutManager := 101\<rparr>"
  "pm (sys_transact (ClaimsCall sample_env (SetPayoutManager 1 101)) sample_world) =
     pm_constructor 1 100 300"
  "pr (sys_transact (ClaimsCall sample_env (SetPayoutManager 1 101)) sample_world) =
     pr sample_world"
  "cpAt (sys_transact (ClaimsCall sample_env (SetPayoutManager 1 101)) sample_world) = 100"
  "pmAt (sys_transact (ClaimsCall sample_env (SetPayoutManager 1 101)) sample_world) = 101"
  "prAt (sys_transact (ClaimsCall sample_env (SetPayoutManager 1 101)) sample_world) = 102"
  by (simp_all add: sys_transact_def in_cp_def setPayoutManager_def andThen_def
        sample_world_cp sample_world_rest cp_constructor_def)

lemma funded_world:
  "cp (sys_run [ClaimsCall sample_env (SetPayoutManager 1 101),
                PayoutCall (Deposit 5 (10 ^ 18))] sample_world) =
     (cp sample_world)\<lparr>payoutManager := 101\<rparr>"
  "pm (sys_run [ClaimsCall sample_env (SetPayoutManager 1 101),
                PayoutCall (Deposit 5 (10 ^ 18))] sample_world) =
     (pm_constructor 1 100 300)\<lparr>availableFunds := 10 ^ 18, ethBalance := 10 ^ 18,
        deposited := 10 ^ 18\<rparr>"
  "pr (sys_run [ClaimsCall sample_env (SetPayoutManager 1 101),
                PayoutCall (Deposit 5 (10 ^ 18))] sample_world) = pr sample_world"
  "cpAt (sys_run [ClaimsCall sample_env (SetPayoutManager 1 101),
                PayoutCall (Deposit 5 (10 ^ 18))] sample_world) = 100"
  "pmAt (sys_run [ClaimsCall sample_env (SetPayoutManager 1 101),
                PayoutCall (Deposit 5 (10 ^ 18))] sample_world) = 101"
  "prAt (sys_run [ClaimsCall sample_env (SetPayoutManager 1 101),
                PayoutCall (Deposit 5 (10 ^ 18))] sample_world) = 102"
  by (simp_all add: sys_transact_def in_cp_def setPayoutManager_def andThen_def
        sample_world_cp sample_world_rest cp_constructor_def pm_eval)

text \<open>
  C5 as stated fails: with the thresholds 20 and 70 and a PayoutManager set whose pool
  is empty, a report with fraud risk 19 and a positive recommended payout for the
  \<open>Submitted\<close> claim 1 reverts with the insufficient-funds error of \<open>processPayout\<close>;
  the claim is not approved and is still \<open>Submitted\<close>.
\<close>

theorem submitAIAnalysis_unfunded_counterexample:
  "status (claims (cp (sys_transact (ClaimsCall sample_env (SetPayoutManager 1 101))
      sample_world)) 1) = Submitted \<and>
   autoApproveThreshold (cp (sys_transact (ClaimsCall sample_env (SetPayoutManager 1 101))
      sample_world)) = 20 \<and>
   autoRejectThreshold (cp (sys_transact (ClaimsCall sample_env (SetPayoutManager 1 101))
      sample_world)) = 70 \<and>
   submitAIAnalysis sample_env 1 1 1 5 19 1000000
     (sys_transact (ClaimsCall sample_env (SetPayoutManager 1 101)) sample_world) =
     Inl InsufficientFunds \<and>
   status (claims (cp (sys_transact (ClaimsCall sample_env (SubmitAIAnalysis 1 1 1 5 19 1000000))
     (sys_transact (ClaimsCall sample_env (SetPayoutManager 1 101)) sample_world))) 1) =
     Submitted"
proof -
  define w where "w = sys_transact (ClaimsCall sample_env (SetPayoutManager 1 101)) sample_world"
  note f = unfunded_world [folded w_def]
  have a: "status (claims (cp w) 1) = Submitted" "autoApproveThreshold (cp w) = 20"
    "autoRejectThreshold (cp w) = 70"
    by (simp_all add: f sample_world_cp cp_constructor_def)
  have b: "submitAIAnalysis sample_env 1 1 1 5 19 1000000 w = Inl InsufficientFunds"
    by (simp add: submitAIAnalysis_def approveClaim_def claim_upd_def f sample_world_cp
          cp_constructor_def sample_env_def pm_eval)
  then have "sys_transact (ClaimsCall sample_env (SubmitAIAnalysis 1 1 1 5 19 1000000)) w = w"
    by (simp add: sys_transact_def)
  with a b show ?thesis by (simp add: w_def)
qed

theorem submitAIAnalysis_routing_witness:
  "status (claims (cp (sys_transact
      (ClaimsCall sample_env (SubmitAIAnalysis 1 1 1 5 19 1000000)) sample_world)) 1) = Approved \<and>
   status (claims (cp (sys_transact
      (ClaimsCall sample_env (SubmitAIAnalysis 1 1 1 5 70 1000000)) sample_world)) 1) = UnderReview \<and>
   status (claims (cp (sys_transact
      (ClaimsCall sample_env (SubmitAIAnalysis 1 1 1 5 71 1000000)) sample_world)) 1) = Rejected \<and>
   status (claims (cp (sys_transact
      (ClaimsCall sample_env (SubmitAIAnalysis 1 1 1 5 19 1000000))
      (sys_run [ClaimsCall sample_env (SetPayoutManager 1 101),
                PayoutCall (Deposit 5 (10 ^ 18))] sample_world))) 1) = Paid \<and>
   submitAIAnalysis sample_env 1 1 1 5 19 1000000
     (sys_transact (ClaimsCall sample_env (SetPayoutManager 1 101)) sample_world) =
     Inl InsufficientFunds"
proof -
  have h: "status (claims (cp sample_world) 1) = Submitted" "1 = aiOracle (cp sample_world)"
    "autoApproveThreshold (cp sample_world) = 20 \<and> autoRejectThreshold (cp sample_world) = 70"
    "payoutManager (cp sample_world) = 0" "activeReviewers (cp sample_world) \<noteq> []"
    by (simp_all add: sample_world_cp cp_constructor_def)
  have pos: "0 < unat (1000000 :: u256)" by simp
  note r = submitAIAnalysis_routing [OF h(1,2), of 19 1000000 sample_env 1 5]
  from r h(3) pos
  have a: "approved_outcome sample_env 1 1000000 sample_world
             (submitAIAnalysis sample_env 1 1 1 5 19 1000000 sample_world)"
    and b: "review_outcome sample_env 1 sample_world
             (submitAIAnalysis sample_env 1 1 1 5 70 1000000 sample_world)"
    and c: "rejected_outcome sample_env 1 sample_world
             (submitAIAnalysis sample_env 1 1 1 5 71 1000000 sample_world)"
    by blast+
  from a h(4) have 1: "status (claims (cp (sys_transact
      (ClaimsCall sample_env (SubmitAIAnalysis 1 1 1 5 19 1000000)) sample_world)) 1) = Approved"
    by (cases "submitAIAnalysis sample_env 1 1 1 5 19 1000000 sample_world")
       (simp_all add: approved_outcome_def returns_def sys_transact_def)
  from b h(5) have 2: "status (claims (cp (sys_transact
      (ClaimsCall sample_env (SubmitAIAnalysis 1 1 1 5 70 1000000)) sample_world)) 1) = UnderReview"
    by (cases "submitAIAnalysis sample_env 1 1 1 5 70 1000000 sample_world")
       (simp_all add: review_outcome_def returns_def sys_transact_def sample_env_def)
  from c have 3: "status (claims (cp (sys_transact
      (ClaimsCall sample_env (SubmitAIAnalysis 1 1 1 5 71 1000000)) sample_world)) 1) = Rejected"
    by (cases "submitAIAnalysis sample_env 1 1 1 5 71 1000000 sample_world")
       (simp_all add: rejected_outcome_def returns_def sys_transact_def)
  define wf where "wf = sys_run [ClaimsCall sample_env (SetPayoutManager 1 101),
                PayoutCall (Deposit 5 (10 ^ 18))] sample_world"
  note f = funded_world [folded wf_def]
  have hf: "status (claims (cp wf) 1) = Submitted" "1 = aiOracle (cp wf)"
    "autoApproveThreshold (cp wf) = 20 \<and> autoRejectThreshold (cp wf) = 70"
    by (simp_all add: f sample_world_cp cp_constructor_def)
  from submitAIAnalysis_routing [OF hf(1,2), of 19 1000000 sample_env 1 5] hf(3) pos
  have "approved_outcome sample_env 1 1000000 wf
          (submitAIAnalysis sample_env 1 1 1 5 19 1000000 wf)"
    by blast
  then have 4: "status (claims (cp (sys_transact
      (ClaimsCall sample_env (SubmitAIAnalysis 1 1 1 5 19 1000000)) wf)) 1) = Paid"
    by (cases "submitAIAnalysis sample_env 1 1 1 5 19 1000000 wf")
       (simp_all add: approved_outcome_def returns_def sys_transact_def f sample_world_cp
          sample_world_pr cp_constructor_def sample_env_def pm_eval pr_eval)
  define wu where "wu = sys_transact (ClaimsCall sample_env (SetPayoutManager 1 101)) sample_world"
  note u = unfunded_world [folded wu_def]
  have hu: "status (claims (cp wu) 1) = Submitted" "1 = aiOracle (cp wu)"
    "autoApproveThreshold (cp wu) = 20 \<and> autoRejectThreshold (cp wu) = 70"
    by (simp_all add: u sample_world_cp cp_constructor_def)
  from submitAIAnalysis_routing [OF hu(1,2), of 19 1000000 sample_env 1 5] hu(3) pos
  have "approved_outcome sample_env 1 1000000 wu
          (submitAIAnalysis sample_env 1 1 1 5 19 1000000 wu)"
    by blast
  then have 5: "submitAIAnalysis sample_env 1 1 1 5 19 1000000 wu = Inl InsufficientFunds"
    by (simp add: approved_outcome_def u sample_world_cp cp_constructor_def sample_env_def
          pm_eval)
  from 1 2 3 4 5 show ?thesis by (simp only: wf_def wu_def simp_thms)
qed

text \<open>
  The whole path once: with a funded PayoutManager set, a report with fraud risk 10 and a
  recommended payout of 2_000_000 leaves claim 1 \<open>Paid\<close>, credits the claimant with the
  converted amount, and a withdrawal resets the balance.
\<close>

lemma end_to_end_paid:
  "status (claims (cp (sys_run
      [ClaimsCall sample_env (SetPayoutManager 1 101),
       PayoutCall (Deposit 5 (10 ^ 18)),
       ClaimsCall sample_env (SubmitAIAnalysis 1 1 1 5 10 2000000)] sample_world)) 1) = Paid \<and>
   balances (pm (sys_run
      [ClaimsCall sample_env (SetPayoutManager 1 101),
       PayoutCall (Deposit 5 (10 ^ 18)),
       ClaimsCall sample_env (SubmitAIAnalysis 1 1 1 5 10 2000000)] sample_world)) 7 =
     10000000000000 \<and>
   balances (pm (sys_run
      [ClaimsCall sample_env (SetPayoutManager 1 101),
       PayoutCall (Deposit 5 (10 ^ 18)),
       ClaimsCall sample_env (SubmitAIAnalysis 1 1 1 5 10 2000000),
       PayoutCall (Withdraw 7 Accept)] sample_world)) 7 = 0"
  by (simp add: sample_world_cp sample_world_rest sample_world_pr sample_env_def
        sys_transact_def in_cp_def setPayoutManager_def submitAIAnalysis_def approveClaim_def
        claim_upd_def cp_constructor_def pm_eval pr_eval)

section \<open>Randomness fulfilment\<close>

lemma fulfillRandomWords_Inr:
  assumes "fulfillRandomWords requestId ws s = Inr s1"
  shows "0 < unat (vrfRequestToClaim s requestId) \<and>
         (activeReviewers s = [] \<or> ws \<noteq> []) \<and>
         s1 = s\<lparr>claims := (claims s)(vrfRequestToClaim s requestId :=
                 (claims s (vrfRequestToClaim s requestId))\<lparr>assignedReviewer :=
                    (if activeReviewers s = [] then cp_admin s
                     else activeReviewers s ! (unat (hd ws) mod length (activeReviewers s)))\<rparr>)\<rparr>"
  using assms
  by (auto simp: fulfillRandomWords_def Let_def split: if_splits list.splits)

lemma fulfillRandomWords_accepts:
  assumes "0 < unat (vrfRequestToClaim t requestId)"
  shows "fulfillRandomWords requestId (v # vs) t =
           Inr (t\<lparr>claims := (claims t)(vrfRequestToClaim t requestId :=
                 (claims t (vrfRequestToClaim t requestId))\<lparr>assignedReviewer :=
                    (if activeReviewers t = [] then cp_admin t
                     else activeReviewers t ! (unat v mod length (activeReviewers t)))\<rparr>)\<rparr>)"
  using assms by (simp add: fulfillRandomWords_def Let_def)

lemma approveClaim_requests:
  "approveClaim e a p w = Inr w' \<Longrightarrow> vrfRequestToClaim (cp w') = vrfRequestToClaim (cp w)"
  by (auto simp: approveClaim_def claim_upd_def Let_def andThen_Inr split: if_splits)

lemma submitAIAnalysis_requests:
  assumes "submitAIAnalysis e sender a ct sv rk rp w = Inr w'"
      and "vrf_requestId e \<noteq> Some requestId"
  shows "vrfRequestToClaim (cp w') requestId = vrfRequestToClaim (cp w) requestId"
proof -
  let ?w1 = "claim_upd a (\<lambda>c. c\<lparr>claimType := ct, severity := sv,
                   fraudRisk := rk, recommendedPayout := rp, status := AIAnalyzed\<rparr>) w"
  from assms(1) have
    "approveClaim e a rp ?w1 = Inr w' \<or>
     w' = claim_upd a (\<lambda>c. c\<lparr>status := Rejected, processedAt := block_timestamp e\<rparr>) ?w1 \<or>
     requestRandomReviewer e a (claim_upd a (\<lambda>c. c\<lparr>requiresHumanReview := True\<rparr>) ?w1) = Inr w'"
    by (auto simp: submitAIAnalysis_def Let_def split: if_splits)
  then show ?thesis
  proof (elim disjE)
    assume "approveClaim e a rp ?w1 = Inr w'"
    from approveClaim_requests [OF this] show ?thesis by simp
  next
    assume "w' = claim_upd a (\<lambda>c. c\<lparr>status := Rejected, processedAt := block_timestamp e\<rparr>) ?w1"
    then show ?thesis by simp
  next
    assume "requestRandomReviewer e a (claim_upd a (\<lambda>c. c\<lparr>requiresHumanReview := True\<rparr>) ?w1) = Inr w'"
    then show ?thesis using assms(2)
      by (auto simp: requestRandomReviewer_def Let_def split: if_splits option.splits)
  qed
qed

lemma sys_exec_requests:
  assumes "sys_exec c w = Inr w'" and "\<not> requests requestId c"
  shows "vrfRequestToClaim (cp w') requestId = vrfRequestToClaim (cp w) requestId"
proof (cases c)
  case (ClaimsCall e k)
  show ?thesis
  proof (cases k)
    case (SetPayoutManager sender a)
    then show ?thesis using assms ClaimsCall
      by (auto simp: in_cp_def andThen_Inr setPayoutManager_def split: if_splits)
  next
    case (SetAIOracle sender a)
    then show ?thesis using assms ClaimsCall
      by (auto simp: in_cp_def andThen_Inr setAIOracle_def split: if_splits)
  next
    case (AddReviewer sender x)
    then show ?thesis using assms ClaimsCall
      by (auto simp: in_cp_def andThen_Inr addReviewer_def split: if_splits)
  next
    case (RemoveReviewer sender x)
    then show ?thesis using assms ClaimsCall
      by (auto simp: in_cp_def andThen_Inr removeReviewer_def split: if_splits)
  next
    case (SetThresholds sender a b)
    then show ?thesis using assms ClaimsCall
      by (auto simp: in_cp_def andThen_Inr setThresholds_def split: if_splits)
  next
    case (SubmitClaim sender pid d ev)
    then show ?thesis using assms ClaimsCall
      by (auto simp: submitClaim_def claim_upd_def Let_def andThen_Inr split: if_splits)
  next
    case (SubmitAIAnalysis sender a ct sv rk rp)
    then show ?thesis using assms ClaimsCall
      by (auto dest: submitAIAnalysis_requests)
  next
    case (ReviewerApproveClaim sender a p)
    then show ?thesis using assms ClaimsCall
      by (auto simp: reviewerApproveClaim_def split: if_splits dest: approveClaim_requests)
  next
    case (ReviewerRejectClaim sender a reason)
    then show ?thesis using assms ClaimsCall
      by (auto simp: reviewerRejectClaim_def split: if_splits)
  next
    case (RawFulfillRandomWords sender q ws)
    then show ?thesis using assms ClaimsCall
      by (auto simp: in_cp_def andThen_Inr rawFulfillRandomWords_def
               split: if_splits dest!: fulfillRandomWords_Inr)
  qed
next
  case (PayoutCall k)
  then show ?thesis using assms by (auto simp: andThen_Inr)
next
  case (PolicyCall now k)
  then show ?thesis using assms by (auto simp: andThen_Inr)
qed

lemma sys_run_requests:
  assumes "\<forall>c\<in>set cs. \<not> requests requestId c"
  shows "vrfRequestToClaim (cp (sys_run cs w)) requestId = vrfRequestToClaim (cp w) requestId"
  using assms
proof (induction cs arbitrary: w)
  case Nil
  show ?case by simp
next
  case (Cons c cs)
  have "vrfRequestToClaim (cp (sys_transact c w)) requestId = vrfRequestToClaim (cp w) requestId"
  proof (cases "sys_exec c w")
    case (Inl err)
    then show ?thesis by (simp add: sys_transact_def)
  next
    case (Inr w')
    then show ?thesis using sys_exec_requests [OF Inr, of requestId] Cons.prems
      by (simp add: sys_transact_def)
  qed
  then show ?case using Cons.IH [of "sys_transact c w"] Cons.prems by simp
qed

lemma assigned_unchanged:
  "(t\<lparr>claims := (claims t)(cid := (claims t cid)\<lparr>assignedReviewer := x\<rparr>)\<rparr> = t) =
     (x = assignedReviewer (claims t cid))"
proof
  assume "t\<lparr>claims := (claims t)(cid := (claims t cid)\<lparr>assignedReviewer := x\<rparr>)\<rparr> = t"
  then have "claims (t\<lparr>claims := (claims t)(cid := (claims t cid)\<lparr>assignedReviewer := x\<rparr>)\<rparr>) cid =
             claims t cid"
    by simp
  then have "(claims t cid)\<lparr>assignedReviewer := x\<rparr> = claims t cid" by simp
  then have "assignedReviewer ((claims t cid)\<lparr>assignedReviewer := x\<rparr>) =
             assignedReviewer (claims t cid)"
    by simp
  then show "x = assignedReviewer (claims t cid)" by simp
next
  assume "x = assignedReviewer (claims t cid)"
  then show "t\<lparr>claims := (claims t)(cid := (claims t cid)\<lparr>assignedReviewer := x\<rparr>)\<rparr> = t"
    by simp
qed

text \<open>
  C9 (as amended). Fulfilment is not guarded per request id. A fulfilment changes
  nothing but the \<open>assignedReviewer\<close> of the claim its request is mapped to, and repeated
  at once with the same random words it leaves the state as it is. The request stays
  mapped to the claim through every later sequence of calls that makes no new request
  under the same id. A second fulfilment for it that arrives then, with at least one
  random word, is accepted like the first: it assigns
  \<open>activeReviewers[randomValue mod length]\<close> of the reviewer list at that moment (the
  administrator when the list is empty), and the state is unchanged exactly when that
  is the reviewer already assigned.
\<close>

theorem fulfillRandomWords_repeated:
  assumes "fulfillRandomWords requestId ws (cp w) = Inr s1"
      and "\<forall>c\<in>set cs. \<not> requests requestId c"
  shows "s1 = (cp w)\<lparr>claims := (claims (cp w))(vrfRequestToClaim (cp w) requestId :=
                 (claims (cp w) (vrfRequestToClaim (cp w) requestId))\<lparr>assignedReviewer :=
                    pick_reviewer (hd ws) (cp w)\<rparr>)\<rparr> \<and>
         fulfillRandomWords requestId ws s1 = Inr s1 \<and>
         vrfRequestToClaim (cp (sys_run cs (w\<lparr>cp := s1\<rparr>))) requestId =
           vrfRequestToClaim (cp w) requestId \<and>
         fulfillRandomWords requestId (v # vs) (cp (sys_run cs (w\<lparr>cp := s1\<rparr>))) =
           Inr ((cp (sys_run cs (w\<lparr>cp := s1\<rparr>)))\<lparr>claims :=
                  (claims (cp (sys_run cs (w\<lparr>cp := s1\<rparr>))))(vrfRequestToClaim (cp w) requestId :=
                     (claims (cp (sys_run cs (w\<lparr>cp := s1\<rparr>)))
                        (vrfRequestToClaim (cp w) requestId))\<lparr>assignedReviewer :=
                        pick_reviewer v (cp (sys_run cs (w\<lparr>cp := s1\<rparr>)))\<rparr>)\<rparr>) \<and>
         (fulfillRandomWords requestId (v # vs) (cp (sys_run cs (w\<lparr>cp := s1\<rparr>))) =
            Inr (cp (sys_run cs (w\<lparr>cp := s1\<rparr>)))) =
           (pick_reviewer v (cp (sys_run cs (w\<lparr>cp := s1\<rparr>))) =
            assignedReviewer (claims (cp (sys_run cs (w\<lparr>cp := s1\<rparr>)))
              (vrfRequestToClaim (cp w) requestId)))"
proof -
  let ?cid = "vrfRequestToClaim (cp w) requestId"
  let ?t = "cp (sys_run cs (w\<lparr>cp := s1\<rparr>))"
  from fulfillRandomWords_Inr [OF assms(1)] have
    pos: "0 < unat ?cid" and ok: "activeReviewers (cp w) = [] \<or> ws \<noteq> []" and
    s1: "s1 = (cp w)\<lparr>claims := (claims (cp w))(?cid :=
                 (claims (cp w) ?cid)\<lparr>assignedReviewer := pick_reviewer (hd ws) (cp w)\<rparr>)\<rparr>"
    by (simp_all add: pick_reviewer_def)
  have map1: "vrfRequestToClaim s1 requestId = ?cid" by (simp add: s1)
  have again: "fulfillRandomWords requestId ws s1 = Inr s1"
  proof (cases ws)
    case Nil
    with ok have "activeReviewers (cp w) = []" by simp
    then show ?thesis using pos Nil
      by (simp add: fulfillRandomWords_def Let_def s1 pick_reviewer_def)
  next
    case (Cons v' vs')
    then show ?thesis using pos
      by (simp add: fulfillRandomWords_def Let_def s1 pick_reviewer_def)
  qed
  have mapt: "vrfRequestToClaim ?t requestId = ?cid"
    using sys_run_requests [OF assms(2), of "w\<lparr>cp := s1\<rparr>"] map1 by simp
  have acc: "fulfillRandomWords requestId (v # vs) ?t =
           Inr (?t\<lparr>claims := (claims ?t)(?cid :=
                     (claims ?t ?cid)\<lparr>assignedReviewer := pick_reviewer v ?t\<rparr>)\<rparr>)"
    using fulfillRandomWords_accepts [of ?t requestId v vs] pos
    by (simp only: mapt pick_reviewer_def)
  have same: "(fulfillRandomWords requestId (v # vs) ?t = Inr ?t) =
           (pick_reviewer v ?t = assignedReviewer (claims ?t ?cid))"
    by (simp only: acc sum.inject assigned_unchanged)
  from s1 again mapt acc same show ?thesis by blast
qed

lemmas review_eval =
  review_world_cp sample_world_cp cp_constructor_def sys_transact_def in_cp_def andThen_def
  rawFulfillRandomWords_def fulfillRandomWords_def Let_def

text \<open>
  C9 as stated fails: request 7 is fulfilled with the word 0 and reviewer 10 is assigned;
  a second fulfilment of request 7 with the word 1 is accepted and assigns reviewer 11.
\<close>

theorem fulfillRandomWords_repeated_counterexample:
  "assignedReviewer (claims (cp (sys_run
      [ClaimsCall sample_env (RawFulfillRandomWords 200 7 [0])] review_world)) 1) = 10 \<and>
   assignedReviewer (claims (cp (sys_run
      [ClaimsCall sample_env (RawFulfillRandomWords 200 7 [0]),
       ClaimsCall sample_env (RawFulfillRandomWords 200 7 [1])] review_world)) 1) = 11"
  by (simp add: review_eval)

text \<open>
  The request is fulfilled with the word 0 and reviewer 10 is assigned; reviewer 10 is
  removed; a second fulfilment with the same word assigns reviewer 11.
\<close>

theorem fulfillRandomWords_repeated_witness:
  "fulfillRandomWords 7 [0] (cp review_world) =
     Inr ((cp review_world)\<lparr>claims := (claims (cp review_world))(1 :=
            (claims (cp review_world) 1)\<lparr>assignedReviewer := 10\<rparr>)\<rparr>) \<and>
   fulfillRandomWords 7 [0] ((cp review_world)\<lparr>claims := (claims (cp review_world))(1 :=
            (claims (cp review_world) 1)\<lparr>assignedReviewer := 10\<rparr>)\<rparr>) =
     Inr ((cp review_world)\<lparr>claims := (claims (cp review_world))(1 :=
            (claims (cp review_world) 1)\<lparr>assignedReviewer := 10\<rparr>)\<rparr>) \<and>
   assignedReviewer (claims (cp (sys_run [ClaimsCall sample_env (RemoveReviewer 1 10)]
     (review_world\<lparr>cp := (cp review_world)\<lparr>claims := (claims (cp review_world))(1 :=
        (claims (cp review_world) 1)\<lparr>assignedReviewer := 10\<rparr>)\<rparr>\<rparr>))) 1) = 10 \<and>
   pick_reviewer 0 (cp (sys_run [ClaimsCall sample_env (RemoveReviewer 1 10)]
     (review_world\<lparr>cp := (cp review_world)\<lparr>claims := (claims (cp review_world))(1 :=
        (claims (cp review_world) 1)\<lparr>assignedReviewer := 10\<rparr>)\<rparr>\<rparr>))) = 11 \<and>
   fulfillRandomWords 7 [0] (cp (sys_run [ClaimsCall sample_env (RemoveReviewer 1 10)]
     (review_world\<lparr>cp := (cp review_world)\<lparr>claims := (claims (cp review_world))(1 :=
        (claims (cp review_world) 1)\<lparr>assignedReviewer := 10\<rparr>)\<rparr>\<rparr>))) \<noteq>
     Inr (cp (sys_run [ClaimsCall sample_env (RemoveReviewer 1 10)]
     (review_world\<lparr>cp := (cp review_world)\<lparr>claims := (claims (cp review_world))(1 :=
        (claims (cp review_world) 1)\<lparr>assignedReviewer := 10\<rparr>)\<rparr>\<rparr>)))"
proof -
  define s where "s = cp review_world"
  define s1 where "s1 = s\<lparr>claims := (claims s)(1 := (claims s 1)\<lparr>assignedReviewer := 10\<rparr>)\<rparr>"
  define t where "t = cp (sys_run [ClaimsCall sample_env (RemoveReviewer 1 10)]
     (review_world\<lparr>cp := s1\<rparr>))"
  have m: "vrfRequestToClaim s 7 = 1" and a: "activeReviewers s = [10, 11]"
    by (simp_all add: s_def review_world_cp sample_world_cp cp_constructor_def)
  have f: "fulfillRandomWords 7 [0] (cp review_world) = Inr s1"
    using m a by (simp add: fulfillRandomWords_def Let_def s1_def s_def)
  have q: "\<forall>c\<in>set [ClaimsCall sample_env (RemoveReviewer 1 10)]. \<not> requests 7 c"
    by simp
  have tt: "t = s1\<lparr>reviewers := (\<lambda>_. False)(11 := True, 10 := False),
      activeReviewers := [11]\<rparr>"
    by (simp add: t_def s1_def s_def sys_transact_def in_cp_def andThen_def removeReviewer_def
          review_world_cp sample_world_cp cp_constructor_def removeLoop.simps)
  have p: "pick_reviewer 0 t = 11" and ar: "assignedReviewer (claims t 1) = 10"
    by (simp_all add: tt pick_reviewer_def s1_def)
  note th = fulfillRandomWords_repeated [OF f q, of 0 "[]", folded t_def, unfolded m [unfolded s_def]]
  from th have 1: "fulfillRandomWords 7 [0] s1 = Inr s1" by blast
  from th have "(fulfillRandomWords 7 [0] t = Inr t) =
      (pick_reviewer 0 t = assignedReviewer (claims t 1))"
    by blast
  then have 2: "fulfillRandomWords 7 [0] t \<noteq> Inr t" by (simp only: p ar) simp
  from f 1 ar p 2 show ?thesis by (simp only: t_def s1_def s_def simp_thms)
qed

section \<open>Final and blocked claims\<close>

lemma approveClaim_only:
  "approveClaim e a p w = Inr w' \<Longrightarrow> only_claim a (cp w) (cp w')"
  by (auto simp: approveClaim_def only_claim_def claim_upd_def Let_def andThen_Inr
           split: if_splits)

lemma requestRandomReviewer_only:
  "requestRandomReviewer e a w = Inr w' \<Longrightarrow> only_claim a (cp w) (cp w')"
  by (auto simp: requestRandomReviewer_def only_claim_def claim_upd_def Let_def
           split: if_splits option.splits)

lemma only_claim_upd:
  "only_claim a (cp (claim_upd a f w)) s' = only_claim a (cp w) s'"
  by (auto simp: only_claim_def claim_upd_def)

lemma submitAIAnalysis_only:
  assumes "submitAIAnalysis e sender a ct sv r rp w = Inr w'"
  shows "status (claims (cp w) a) = Submitted \<and> only_claim a (cp w) (cp w')"
proof -
  from assms have st: "status (claims (cp w) a) = Submitted"
    by (auto simp: submitAIAnalysis_def split: if_splits)
  let ?w1 = "claim_upd a (\<lambda>c. c\<lparr>claimType := ct, severity := sv,
                   fraudRisk := r, recommendedPayout := rp, status := AIAnalyzed\<rparr>) w"
  from assms have
    "approveClaim e a rp ?w1 = Inr w' \<or>
     w' = claim_upd a (\<lambda>c. c\<lparr>status := Rejected, processedAt := block_timestamp e\<rparr>) ?w1 \<or>
     requestRandomReviewer e a (claim_upd a (\<lambda>c. c\<lparr>requiresHumanReview := True\<rparr>) ?w1) = Inr w'"
    by (auto simp: submitAIAnalysis_def Let_def split: if_splits)
  then have "only_claim a (cp w) (cp w')"
  proof (elim disjE)
    assume "approveClaim e a rp ?w1 = Inr w'"
    then have "only_claim a (cp ?w1) (cp w')" by (rule approveClaim_only)
    then show ?thesis by (simp only: only_claim_upd)
  next
    assume "w' = claim_upd a (\<lambda>c. c\<lparr>status := Rejected, processedAt := block_timestamp e\<rparr>) ?w1"
    then show ?thesis by (auto simp: only_claim_def claim_upd_def)
  next
    assume "requestRandomReviewer e a (claim_upd a (\<lambda>c. c\<lparr>requiresHumanReview := True\<rparr>) ?w1) = Inr w'"
    then have "only_claim a (cp (claim_upd a (\<lambda>c. c\<lparr>requiresHumanReview := True\<rparr>) ?w1)) (cp w')"
      by (rule requestRandomReviewer_only)
    then show ?thesis by (simp only: only_claim_upd)
  qed
  with st show ?thesis by simp
qed

lemma reviewerApproveClaim_only:
  assumes "reviewerApproveClaim e sender a p w = Inr w'"
  shows "reviewers (cp w) sender \<and> status (claims (cp w) a) = UnderReview \<and>
         assignedReviewer (claims (cp w) a) = sender \<and> only_claim a (cp w) (cp w')"
  using assms by (auto simp: reviewerApproveClaim_def split: if_splits dest: approveClaim_only)

lemma reviewerRejectClaim_only:
  assumes "reviewerRejectClaim e sender a reason w = Inr w'"
  shows "reviewers (cp w) sender \<and> status (claims (cp w) a) = UnderReview \<and>
         assignedReviewer (claims (cp w) a) = sender \<and> only_claim a (cp w) (cp w')"
  using assms
  by (auto simp: reviewerRejectClaim_def only_claim_def claim_upd_def split: if_splits)

lemma submitClaim_effect:
  assumes "submitClaim e sender pid d ev w = Inr (a, w')"
  shows "unat (nextClaimId (cp w')) = unat (nextClaimId (cp w)) + 1 \<and>
         claims (cp w') = (claims (cp w))(nextClaimId (cp w) := claims (cp w') (nextClaimId (cp w))) \<and>
         reviewers (cp w') = reviewers (cp w)"
  using assms
  by (auto simp: submitClaim_def claim_upd_def Let_def andThen_Inr checked_add_Inr
                 unat_word_ariths split: if_splits)

lemma rawFulfill_effect:
  assumes "rawFulfillRandomWords sender requestId ws s = Inr s'"
  shows "claims s' = (claims s)(vrfRequestToClaim s requestId :=
            (claims s (vrfRequestToClaim s requestId))\<lparr>assignedReviewer :=
               assignedReviewer (claims s' (vrfRequestToClaim s requestId))\<rparr>) \<and>
         reviewers s' = reviewers s \<and> nextClaimId s' = nextClaimId s"
proof -
  from assms have "fulfillRandomWords requestId ws s = Inr s'"
    by (auto simp: rawFulfillRandomWords_def split: if_splits)
  from fulfillRandomWords_Inr [OF this] show ?thesis
    by (auto simp: fun_upd_def)
qed


lemma in_cp_Inr: "in_cp f w = Inr w' \<longleftrightarrow> (\<exists>s. f (cp w) = Inr s \<and> w' = w\<lparr>cp := s\<rparr>)"
  by (auto simp: in_cp_def andThen_Inr)

lemma only_claim_other:
  "only_claim a s s' \<Longrightarrow> a \<noteq> cid \<Longrightarrow> claims s' cid = claims s cid"
  by (metis fun_upd_other only_claim_def)

lemma cp_exec_effect:
  assumes "cp_exec e c w = Inr w'"
  shows "unat (nextClaimId (cp w)) \<le> unat (nextClaimId (cp w')) \<and>
         (reviewers (cp w') r \<noteq> reviewers (cp w) r \<longrightarrow>
            (\<exists>sender. c = AddReviewer sender r \<or> c = RemoveReviewer sender r)) \<and>
         (unat cid < unat (nextClaimId (cp w)) \<longrightarrow>
            claims (cp w') cid = claims (cp w) cid \<or>
            (\<exists>sender ct sv rk rp. c = SubmitAIAnalysis sender cid ct sv rk rp \<and>
                 status (claims (cp w) cid) = Submitted) \<or>
            (\<exists>sender p. c = ReviewerApproveClaim sender cid p \<and> reviewers (cp w) sender \<and>
                 status (claims (cp w) cid) = UnderReview \<and>
                 assignedReviewer (claims (cp w) cid) = sender) \<or>
            (\<exists>sender reason. c = ReviewerRejectClaim sender cid reason \<and>
                 reviewers (cp w) sender \<and> status (claims (cp w) cid) = UnderReview \<and>
                 assignedReviewer (claims (cp w) cid) = sender) \<or>
            (\<exists>sender requestId ws. c = RawFulfillRandomWords sender requestId ws \<and>
                 vrfRequestToClaim (cp w) requestId = cid \<and>
                 claims (cp w') cid = (claims (cp w) cid)\<lparr>assignedReviewer :=
                    assignedReviewer (claims (cp w') cid)\<rparr>))"
proof (cases c)
  case (SetPayoutManager sender a)
  then show ?thesis using assms
    by (auto simp: in_cp_Inr setPayoutManager_def split: if_splits)
next
  case (SetAIOracle sender a)
  then show ?thesis using assms
    by (auto simp: in_cp_Inr setAIOracle_def split: if_splits)
next
  case (AddReviewer sender x)
  then show ?thesis using assms
    by (auto simp: in_cp_Inr addReviewer_def split: if_splits)
next
  case (RemoveReviewer sender x)
  then show ?thesis using assms
    by (auto simp: in_cp_Inr removeReviewer_def split: if_splits)
next
  case (SetThresholds sender a b)
  then show ?thesis using assms
    by (auto simp: in_cp_Inr setThresholds_def split: if_splits)
next
  case (SubmitClaim sender pid d ev)
  with assms obtain a where "submitClaim e sender pid d ev w = Inr (a, w')"
    by (auto simp: andThen_Inr)
  from submitClaim_effect [OF this] have
    n: "unat (nextClaimId (cp w')) = unat (nextClaimId (cp w)) + 1" and
    cl: "claims (cp w') = (claims (cp w))(nextClaimId (cp w) := claims (cp w') (nextClaimId (cp w)))" and
    rv: "reviewers (cp w') = reviewers (cp w)"
    by simp_all
  have "unat cid < unat (nextClaimId (cp w)) \<longrightarrow> claims (cp w') cid = claims (cp w) cid"
  proof
    assume "unat cid < unat (nextClaimId (cp w))"
    then have "cid \<noteq> nextClaimId (cp w)" by auto
    then show "claims (cp w') cid = claims (cp w) cid"
      using cl by (metis fun_upd_other)
  qed
  then show ?thesis using n rv SubmitClaim by simp
next
  case (SubmitAIAnalysis sender a ct sv rk rp)
  with assms have "submitAIAnalysis e sender a ct sv rk rp w = Inr w'" by simp
  from submitAIAnalysis_only [OF this] have
    st: "status (claims (cp w) a) = Submitted" and o: "only_claim a (cp w) (cp w')"
    by simp_all
  show ?thesis
  proof (cases "a = cid")
    case True
    then show ?thesis using st o SubmitAIAnalysis by (simp add: only_claim_def)
  next
    case False
    then show ?thesis using o only_claim_other [OF o False] SubmitAIAnalysis
      by (simp add: only_claim_def)
  qed
next
  case (ReviewerApproveClaim sender a p)
  with assms have "reviewerApproveClaim e sender a p w = Inr w'" by simp
  from reviewerApproveClaim_only [OF this] have
    st: "reviewers (cp w) sender" "status (claims (cp w) a) = UnderReview"
        "assignedReviewer (claims (cp w) a) = sender" and o: "only_claim a (cp w) (cp w')"
    by simp_all
  show ?thesis
  proof (cases "a = cid")
    case True
    then show ?thesis using st o ReviewerApproveClaim by (simp add: only_claim_def)
  next
    case False
    then show ?thesis using o only_claim_other [OF o False] ReviewerApproveClaim
      by (simp add: only_claim_def)
  qed
next
  case (ReviewerRejectClaim sender a reason)
  with assms have "reviewerRejectClaim e sender a reason w = Inr w'" by simp
  from reviewerRejectClaim_only [OF this] have
    st: "reviewers (cp w) sender" "status (claims (cp w) a) = UnderReview"
        "assignedReviewer (claims (cp w) a) = sender" and o: "only_claim a (cp w) (cp w')"
    by simp_all
  show ?thesis
  proof (cases "a = cid")
    case True
    then show ?thesis using st o ReviewerRejectClaim by (simp add: only_claim_def)
  next
    case False
    then show ?thesis using o only_claim_other [OF o False] ReviewerRejectClaim
      by (simp add: only_claim_def)
  qed
next
  case (RawFulfillRandomWords sender requestId ws)
  with assms obtain s' where
    f: "rawFulfillRandomWords sender requestId ws (cp w) = Inr s'" and w': "w' = w\<lparr>cp := s'\<rparr>"
    by (auto simp: in_cp_Inr)
  from rawFulfill_effect [OF f] have
    cl: "claims s' = (claims (cp w))(vrfRequestToClaim (cp w) requestId :=
            (claims (cp w) (vrfRequestToClaim (cp w) requestId))\<lparr>assignedReviewer :=
               assignedReviewer (claims s' (vrfRequestToClaim (cp w) requestId))\<rparr>)" and
    rv: "reviewers s' = reviewers (cp w)" and n: "nextClaimId s' = nextClaimId (cp w)"
    by simp_all
  show ?thesis
  proof (cases "vrfRequestToClaim (cp w) requestId = cid")
    case True
    then have "claims s' cid = (claims (cp w) cid)\<lparr>assignedReviewer :=
                    assignedReviewer (claims s' cid)\<rparr>"
      using cl by (metis fun_upd_same)
    then show ?thesis using True rv n RawFulfillRandomWords by (simp add: w')
  next
    case False
    then have "claims s' cid = claims (cp w) cid"
      using cl by (metis fun_upd_other)
    then show ?thesis using rv n RawFulfillRandomWords by (simp add: w')
  qed
qed

lemma sys_exec_cp:
  assumes "sys_exec c w = Inr w'"
  shows "cp w' = cp w \<or> (\<exists>e k. c = ClaimsCall e k \<and> cp_exec e k w = Inr w')"
  using assms by (cases c) (auto simp: andThen_Inr)

lemma cp_exec_claim_cases:
  assumes "cp_exec e k w = Inr w'" and "unat cid < unat (nextClaimId (cp w))"
  shows "claims (cp w') cid = claims (cp w) cid \<or>
         status (claims (cp w) cid) = Submitted \<or>
         (status (claims (cp w) cid) = UnderReview \<and>
            reviewers (cp w) (assignedReviewer (claims (cp w) cid))) \<or>
         ((\<exists>sender requestId ws. k = RawFulfillRandomWords sender requestId ws \<and>
                 vrfRequestToClaim (cp w) requestId = cid) \<and>
            claims (cp w') cid = (claims (cp w) cid)\<lparr>assignedReviewer :=
                    assignedReviewer (claims (cp w') cid)\<rparr>)"
  using cp_exec_effect [OF assms(1), of 0 cid] assms(2) by blast

lemma cp_exec_next:
  assumes "cp_exec e k w = Inr w'"
  shows "unat (nextClaimId (cp w)) \<le> unat (nextClaimId (cp w'))"
  using cp_exec_effect [OF assms, of 0 0] by blast

lemma cp_exec_reviewers:
  assumes "cp_exec e k w = Inr w'" and "reviewers (cp w') r \<noteq> reviewers (cp w) r"
  shows "\<exists>sender. k = AddReviewer sender r \<or> k = RemoveReviewer sender r"
  using cp_exec_effect [OF assms(1), of r 0] assms(2) by blast

lemma terminal_step:
  assumes t: "terminal (claims (cp w) cid)" and cr: "claim_created w cid"
      and ex: "sys_exec c w = Inr w'"
  shows "claim_created w' cid \<and>
         claims (cp w') cid =
           (claims (cp w) cid)\<lparr>assignedReviewer := assignedReviewer (claims (cp w') cid)\<rparr>"
proof -
  from sys_exec_cp [OF ex] show ?thesis
  proof (elim disjE exE conjE)
    assume "cp w' = cp w"
    then show ?thesis using cr by (simp add: claim_created_def)
  next
    fix e k
    assume "c = ClaimsCall e k" and k: "cp_exec e k w = Inr w'"
    from cr have lt: "unat cid < unat (nextClaimId (cp w))" by (simp add: claim_created_def)
    have st: "status (claims (cp w) cid) \<noteq> Submitted" "status (claims (cp w) cid) \<noteq> UnderReview"
      using t by (auto simp: terminal_def)
    from cp_exec_claim_cases [OF k lt] st have
      "claims (cp w') cid = claims (cp w) cid \<or>
       claims (cp w') cid = (claims (cp w) cid)\<lparr>assignedReviewer :=
                    assignedReviewer (claims (cp w') cid)\<rparr>"
      by blast
    then have eq: "claims (cp w') cid = (claims (cp w) cid)\<lparr>assignedReviewer :=
                    assignedReviewer (claims (cp w') cid)\<rparr>"
    proof
      assume "claims (cp w') cid = claims (cp w) cid"
      then show ?thesis by simp
    qed
    from cp_exec_next [OF k] cr have "claim_created w' cid"
      by (simp add: claim_created_def)
    with eq show ?thesis by simp
  qed
qed

lemma terminal_transact:
  assumes "terminal (claims (cp w) cid)" and "claim_created w cid"
  shows "claim_created (sys_transact c w) cid \<and>
         claims (cp (sys_transact c w)) cid =
           (claims (cp w) cid)\<lparr>assignedReviewer :=
              assignedReviewer (claims (cp (sys_transact c w)) cid)\<rparr>"
proof (cases "sys_exec c w")
  case (Inl err)
  then show ?thesis using assms by (simp add: sys_transact_def)
next
  case (Inr w')
  then show ?thesis using terminal_step [OF assms Inr] by (simp add: sys_transact_def)
qed

lemma terminal_run:
  assumes "terminal (claims (cp w) cid)" and "claim_created w cid"
  shows "claims (cp (sys_run cs w)) cid =
           (claims (cp w) cid)\<lparr>assignedReviewer :=
              assignedReviewer (claims (cp (sys_run cs w)) cid)\<rparr>"
  using assms
proof (induction cs arbitrary: w)
  case Nil
  then show ?case by simp
next
  case (Cons c cs)
  let ?w1 = "sys_transact c w"
  from terminal_transact [OF Cons.prems] have
    cr: "claim_created ?w1 cid" and
    eq: "claims (cp ?w1) cid =
           (claims (cp w) cid)\<lparr>assignedReviewer := assignedReviewer (claims (cp ?w1) cid)\<rparr>"
    by simp_all
  have "status (claims (cp ?w1) cid) = status (claims (cp w) cid)"
    by (subst eq) simp
  then have t: "terminal (claims (cp ?w1) cid)" using Cons.prems(1) by (simp add: terminal_def)
  from Cons.IH [OF t cr] have
    "claims (cp (sys_run cs ?w1)) cid =
       (claims (cp ?w1) cid)\<lparr>assignedReviewer :=
          assignedReviewer (claims (cp (sys_run cs ?w1)) cid)\<rparr>" .
  also have "\<dots> = (claims (cp w) cid)\<lparr>assignedReviewer :=
          assignedReviewer (claims (cp (sys_run cs ?w1)) cid)\<rparr>"
    by (subst eq) simp
  finally show ?case by simp
qed

text \<open>
  C7 (as amended). Once a claim is \<open>Rejected\<close> or \<open>Paid\<close>, every call of
  \<open>submitAIAnalysis\<close>, \<open>reviewerApproveClaim\<close> and \<open>reviewerRejectClaim\<close> on it fails:
  with the invalid-status error for a caller that holds the role (the status is not
  \<open>Submitted\<close>, respectively not \<open>UnderReview\<close>), and at the role guard for any other
  caller. For a claim that \<open>submitClaim\<close> created, no sequence of calls to the three
  contracts changes its status or any field other than \<open>assignedReviewer\<close> again.
\<close>

theorem terminal_claim_is_final:
  assumes "terminal (claims (cp w) cid)"
  shows "cp_exec e (SubmitAIAnalysis sender cid ct sv rk rp) w =
           Inl (if sender = aiOracle (cp w) then InvalidStatus else OnlyAIOracle) \<and>
         cp_exec e (ReviewerApproveClaim sender cid payout) w =
           Inl (if reviewers (cp w) sender then InvalidStatus else OnlyReviewer) \<and>
         cp_exec e (ReviewerRejectClaim sender cid reason) w =
           Inl (if reviewers (cp w) sender then InvalidStatus else OnlyReviewer) \<and>
         (claim_created w cid \<longrightarrow>
            terminal (claims (cp (sys_run cs w)) cid) \<and>
            claims (cp (sys_run cs w)) cid =
              (claims (cp w) cid)\<lparr>assignedReviewer :=
                 assignedReviewer (claims (cp (sys_run cs w)) cid)\<rparr>)"
proof (intro conjI impI)
  show "cp_exec e (SubmitAIAnalysis sender cid ct sv rk rp) w =
           Inl (if sender = aiOracle (cp w) then InvalidStatus else OnlyAIOracle)"
    using assms by (auto simp: submitAIAnalysis_def terminal_def)
  show "cp_exec e (ReviewerApproveClaim sender cid payout) w =
           Inl (if reviewers (cp w) sender then InvalidStatus else OnlyReviewer)"
    using assms by (auto simp: reviewerApproveClaim_def terminal_def)
  show "cp_exec e (ReviewerRejectClaim sender cid reason) w =
           Inl (if reviewers (cp w) sender then InvalidStatus else OnlyReviewer)"
    using assms by (auto simp: reviewerRejectClaim_def terminal_def)
next
  assume cr: "claim_created w cid"
  from terminal_run [OF assms cr, of cs] show
    eq: "claims (cp (sys_run cs w)) cid =
              (claims (cp w) cid)\<lparr>assignedReviewer :=
                 assignedReviewer (claims (cp (sys_run cs w)) cid)\<rparr>" .
  have "status (claims (cp (sys_run cs w)) cid) = status (claims (cp w) cid)"
    by (subst eq) simp
  then show "terminal (claims (cp (sys_run cs w)) cid)"
    using assms by (simp add: terminal_def)
qed

lemma blocked_step:
  assumes b: "blocked r cid w" and nr: "\<not> rescues r cid c w" and ex: "sys_exec c w = Inr w'"
  shows "blocked r cid w'"
proof -
  from sys_exec_cp [OF ex] show ?thesis
  proof (elim disjE exE conjE)
    assume "cp w' = cp w"
    then show ?thesis using b by (simp add: blocked_def claim_created_def)
  next
    fix e k
    assume c: "c = ClaimsCall e k" and k: "cp_exec e k w = Inr w'"
    from b have lt: "unat cid < unat (nextClaimId (cp w))" and pos: "0 < unat cid"
      and st: "status (claims (cp w) cid) = UnderReview"
      and ar: "assignedReviewer (claims (cp w) cid) = r" and nrv: "\<not> reviewers (cp w) r"
      by (simp_all add: blocked_def claim_created_def)
    have nf: "\<not> (\<exists>sender requestId ws. k = RawFulfillRandomWords sender requestId ws \<and>
                 vrfRequestToClaim (cp w) requestId = cid)"
      using nr c by auto
    from cp_exec_claim_cases [OF k lt] st ar nrv nf
    have keep: "claims (cp w') cid = claims (cp w) cid"
      by auto
    have "\<not> reviewers (cp w') r"
    proof
      assume now: "reviewers (cp w') r"
      then have "reviewers (cp w') r \<noteq> reviewers (cp w) r" using nrv by simp
      from cp_exec_reviewers [OF k this]
      obtain sender where "k = AddReviewer sender r \<or> k = RemoveReviewer sender r"
        by blast
      then show False
      proof
        assume "k = AddReviewer sender r"
        then show False using nr c by simp
      next
        assume "k = RemoveReviewer sender r"
        then show False using k now
          by (auto simp: in_cp_Inr removeReviewer_def split: if_splits)
      qed
    qed
    moreover from cp_exec_next [OF k] lt pos have "claim_created w' cid"
      by (simp add: claim_created_def)
    ultimately show ?thesis using st ar keep by (simp add: blocked_def)
  qed
qed

lemma blocked_run:
  assumes "blocked r cid w" and "undisturbed r cid cs w"
  shows "blocked r cid (sys_run cs w)"
  using assms
proof (induction cs arbitrary: w)
  case Nil
  then show ?case by simp
next
  case (Cons c cs)
  have "blocked r cid (sys_transact c w)"
  proof (cases "sys_exec c w")
    case (Inl err)
    then show ?thesis using Cons.prems(1) by (simp add: sys_transact_def)
  next
    case (Inr w')
    then show ?thesis using blocked_step [OF Cons.prems(1) _ Inr] Cons.prems(2)
      by (simp add: sys_transact_def)
  qed
  then show ?case using Cons.IH Cons.prems(2) by simp
qed

text \<open>
  C10 (as amended). Let a created claim be \<open>UnderReview\<close> with assigned reviewer \<open>r\<close>,
  and let \<open>r\<close> be removed with \<open>removeReviewer\<close>. After any later sequence of calls in
  which \<open>r\<close> is not added again and no randomness fulfilment arrives for a request
  mapped to the claim, the claim is still \<open>UnderReview\<close> and assigned to \<open>r\<close>, and every
  call of \<open>reviewerApproveClaim\<close> or \<open>reviewerRejectClaim\<close> on it fails: at the role
  guard for \<open>r\<close> and for any other unregistered caller, at the assigned-reviewer check
  for every registered reviewer.
\<close>

theorem removed_reviewer_blocks_claim:
  assumes "claim_created w cid" and "status (claims (cp w) cid) = UnderReview"
      and "assignedReviewer (claims (cp w) cid) = r"
      and "cp_exec e0 (RemoveReviewer admin r) w = Inr w1"
      and "undisturbed r cid cs w1"
  shows "\<not> reviewers (cp (sys_run cs w1)) r \<and>
         status (claims (cp (sys_run cs w1)) cid) = UnderReview \<and>
         assignedReviewer (claims (cp (sys_run cs w1)) cid) = r \<and>
         cp_exec e (ReviewerApproveClaim sender cid payout) (sys_run cs w1) =
           Inl (if reviewers (cp (sys_run cs w1)) sender then NotAssignedReviewer
                else OnlyReviewer) \<and>
         cp_exec e (ReviewerRejectClaim sender cid reason) (sys_run cs w1) =
           Inl (if reviewers (cp (sys_run cs w1)) sender then NotAssignedReviewer
                else OnlyReviewer)"
proof -
  from assms(4) have w1: "w1 = w\<lparr>cp := (cp w)\<lparr>reviewers := (reviewers (cp w))(r := False),
                  activeReviewers := removeLoop 0 (activeReviewers (cp w)) r\<rparr>\<rparr>"
    by (auto simp: in_cp_Inr removeReviewer_def split: if_splits)
  have "blocked r cid w1"
    using assms(1-3) by (simp add: blocked_def claim_created_def w1)
  from blocked_run [OF this assms(5)] have b: "blocked r cid (sys_run cs w1)" .
  then have 1: "\<not> reviewers (cp (sys_run cs w1)) r"
    and 2: "status (claims (cp (sys_run cs w1)) cid) = UnderReview"
    and 3: "assignedReviewer (claims (cp (sys_run cs w1)) cid) = r"
    by (simp_all add: blocked_def)
  have 4: "cp_exec e (ReviewerApproveClaim sender cid payout) (sys_run cs w1) =
           Inl (if reviewers (cp (sys_run cs w1)) sender then NotAssignedReviewer
                else OnlyReviewer)"
    using 1 2 3 by (auto simp: reviewerApproveClaim_def)
  have 5: "cp_exec e (ReviewerRejectClaim sender cid reason) (sys_run cs w1) =
           Inl (if reviewers (cp (sys_run cs w1)) sender then NotAssignedReviewer
                else OnlyReviewer)"
    using 1 2 3 by (auto simp: reviewerRejectClaim_def)
  from 1 2 3 4 5 show ?thesis by simp
qed

lemmas claims_eval =
  review_eval reviewerRejectClaim_def reviewerApproveClaim_def approveClaim_def claim_upd_def
  removeReviewer_def removeLoop.simps addReviewer_def submitAIAnalysis_def emptyClaim_def

text \<open>
  C7 as stated fails: claim 1 is rejected by its reviewer 10; a further fulfilment of
  its randomness request then overwrites \<open>assignedReviewer\<close>, so the record of the
  rejected claim changes.
\<close>

theorem terminal_claim_changes_counterexample:
  "status (claims (cp (sys_run
      [ClaimsCall sample_env (RawFulfillRandomWords 200 7 [0]),
       ClaimsCall sample_env (ReviewerRejectClaim 10 1 ''no'')] review_world)) 1) = Rejected \<and>
   claims (cp (sys_run
      [ClaimsCall sample_env (RawFulfillRandomWords 200 7 [0]),
       ClaimsCall sample_env (ReviewerRejectClaim 10 1 ''no''),
       ClaimsCall sample_env (RawFulfillRandomWords 200 7 [1])] review_world)) 1 \<noteq>
   claims (cp (sys_run
      [ClaimsCall sample_env (RawFulfillRandomWords 200 7 [0]),
       ClaimsCall sample_env (ReviewerRejectClaim 10 1 ''no'')] review_world)) 1"
  by (simp add: claims_eval)

lemma rejected_world_cp:
  "cp (sys_run
      [ClaimsCall sample_env (RawFulfillRandomWords 200 7 [0]),
       ClaimsCall sample_env (ReviewerRejectClaim 10 1 ''no'')] review_world) =
   (cp review_world)\<lparr>claims := (claims (cp review_world))(1 :=
      (claims (cp review_world) 1)\<lparr>assignedReviewer := 10, status := Rejected,
         processedAt := 2000\<rparr>)\<rparr>"
  by (simp add: claims_eval sample_env_def)

theorem terminal_claim_is_final_witness:
  "cp_exec sample_env (SubmitAIAnalysis 1 1 1 5 10 1000000) (sys_run
      [ClaimsCall sample_env (RawFulfillRandomWords 200 7 [0]),
       ClaimsCall sample_env (ReviewerRejectClaim 10 1 ''no'')] review_world) =
     Inl InvalidStatus \<and>
   cp_exec sample_env (ReviewerApproveClaim 10 1 1000000) (sys_run
      [ClaimsCall sample_env (RawFulfillRandomWords 200 7 [0]),
       ClaimsCall sample_env (ReviewerRejectClaim 10 1 ''no'')] review_world) =
     Inl InvalidStatus \<and>
   cp_exec sample_env (ReviewerRejectClaim 3 1 ''late'') (sys_run
      [ClaimsCall sample_env (RawFulfillRandomWords 200 7 [0]),
       ClaimsCall sample_env (ReviewerRejectClaim 10 1 ''no'')] review_world) =
     Inl OnlyReviewer \<and>
   terminal (claims (cp (sys_run
      [ClaimsCall sample_env (RawFulfillRandomWords 200 7 [1]),
       ClaimsCall sample_env (SubmitAIAnalysis 1 1 1 5 10 1000000)]
      (sys_run
        [ClaimsCall sample_env (RawFulfillRandomWords 200 7 [0]),
         ClaimsCall sample_env (ReviewerRejectClaim 10 1 ''no'')] review_world))) 1)"
proof -
  define w where "w = sys_run
      [ClaimsCall sample_env (RawFulfillRandomWords 200 7 [0]),
       ClaimsCall sample_env (ReviewerRejectClaim 10 1 ''no'')] review_world"
  have c: "cp w = (cp review_world)\<lparr>claims := (claims (cp review_world))(1 :=
      (claims (cp review_world) 1)\<lparr>assignedReviewer := 10, status := Rejected,
         processedAt := 2000\<rparr>)\<rparr>"
    unfolding w_def by (rule rejected_world_cp)
  have t: "terminal (claims (cp w) 1)" by (simp add: c terminal_def)
  have cr: "claim_created w 1"
    by (simp add: c claim_created_def review_world_cp sample_world_cp cp_constructor_def)
  have f: "aiOracle (cp w) = 1" "reviewers (cp w) 10" "\<not> reviewers (cp w) 3"
    by (simp_all add: c review_world_cp sample_world_cp cp_constructor_def)
  from terminal_claim_is_final [OF t, of sample_env 1 1 5 10 1000000 1000000 "''x''"
      "[ClaimsCall sample_env (RawFulfillRandomWords 200 7 [1]),
        ClaimsCall sample_env (SubmitAIAnalysis 1 1 1 5 10 1000000)]"] f(1) cr
  have 1: "cp_exec sample_env (SubmitAIAnalysis 1 1 1 5 10 1000000) w = Inl InvalidStatus"
    and 4: "terminal (claims (cp (sys_run
      [ClaimsCall sample_env (RawFulfillRandomWords 200 7 [1]),
       ClaimsCall sample_env (SubmitAIAnalysis 1 1 1 5 10 1000000)] w)) 1)"
    by simp_all
  from terminal_claim_is_final [OF t, of sample_env 10 1 5 10 1000000 1000000 "''x''" "[]"] f(2)
  have 2: "cp_exec sample_env (ReviewerApproveClaim 10 1 1000000) w = Inl InvalidStatus"
    by simp
  from terminal_claim_is_final [OF t, of sample_env 3 1 5 10 1000000 1000000 "''late''" "[]"] f(3)
  have 3: "cp_exec sample_env (ReviewerRejectClaim 3 1 ''late'') w = Inl OnlyReviewer"
    by simp
  from 1 2 3 4 show ?thesis by (simp only: w_def simp_thms)
qed


text \<open>
  C10 as stated fails: reviewer 10 is assigned to claim 1 and then removed; a further
  fulfilment of the claim's randomness request assigns reviewer 11, who approves the
  claim, although 10 was never added again.
\<close>

theorem removed_reviewer_counterexample:
  "status (claims (cp (sys_run
      [ClaimsCall sample_env (RawFulfillRandomWords 200 7 [0]),
       ClaimsCall sample_env (RemoveReviewer 1 10)] review_world)) 1) = UnderReview \<and>
   assignedReviewer (claims (cp (sys_run
      [ClaimsCall sample_env (RawFulfillRandomWords 200 7 [0]),
       ClaimsCall sample_env (RemoveReviewer 1 10)] review_world)) 1) = 10 \<and>
   \<not> reviewers (cp (sys_run
      [ClaimsCall sample_env (RawFulfillRandomWords 200 7 [0]),
       ClaimsCall sample_env (RemoveReviewer 1 10)] review_world)) 10 \<and>
   status (claims (cp (sys_run
      [ClaimsCall sample_env (RawFulfillRandomWords 200 7 [0]),
       ClaimsCall sample_env (RemoveReviewer 1 10),
       ClaimsCall sample_env (RawFulfillRandomWords 200 7 [0]),
       ClaimsCall sample_env (ReviewerApproveClaim 11 1 500000)] review_world)) 1) = Approved \<and>
   \<not> reviewers (cp (sys_run
      [ClaimsCall sample_env (RawFulfillRandomWords 200 7 [0]),
       ClaimsCall sample_env (RemoveReviewer 1 10),
       ClaimsCall sample_env (RawFulfillRandomWords 200 7 [0]),
       ClaimsCall sample_env (ReviewerApproveClaim 11 1 500000)] review_world)) 10"
  by (simp add: claims_eval)

lemma assigned_world_cp:
  "cp (sys_transact (ClaimsCall sample_env (RawFulfillRandomWords 200 7 [0])) review_world) =
   (cp review_world)\<lparr>claims := (claims (cp review_world))(1 :=
      (claims (cp review_world) 1)\<lparr>assignedReviewer := 10\<rparr>)\<rparr>"
  by (simp add: claims_eval)

theorem removed_reviewer_blocks_claim_witness:
  "cp_exec sample_env (ReviewerApproveClaim 10 1 500000)
     (sys_run [ClaimsCall sample_env (ReviewerRejectClaim 11 1 ''no''),
               ClaimsCall sample_env (AddReviewer 1 12)]
        (sys_transact (ClaimsCall sample_env (RemoveReviewer 1 10))
           (sys_transact (ClaimsCall sample_env (RawFulfillRandomWords 200 7 [0]))
              review_world))) = Inl OnlyReviewer \<and>
   cp_exec sample_env (ReviewerRejectClaim 12 1 ''no'')
     (sys_run [ClaimsCall sample_env (ReviewerRejectClaim 11 1 ''no''),
               ClaimsCall sample_env (AddReviewer 1 12)]
        (sys_transact (ClaimsCall sample_env (RemoveReviewer 1 10))
           (sys_transact (ClaimsCall sample_env (RawFulfillRandomWords 200 7 [0]))
              review_world))) = Inl NotAssignedReviewer \<and>
   status (claims (cp
     (sys_run [ClaimsCall sample_env (ReviewerRejectClaim 11 1 ''no''),
               ClaimsCall sample_env (AddReviewer 1 12)]
        (sys_transact (ClaimsCall sample_env (RemoveReviewer 1 10))
           (sys_transact (ClaimsCall sample_env (RawFulfillRandomWords 200 7 [0]))
              review_world)))) 1) = UnderReview"
proof -
  define w where
    "w = sys_transact (ClaimsCall sample_env (RawFulfillRandomWords 200 7 [0])) review_world"
  define w1 where "w1 = sys_transact (ClaimsCall sample_env (RemoveReviewer 1 10)) w"
  define cs where "cs = [ClaimsCall sample_env (ReviewerRejectClaim 11 1 ''no''),
               ClaimsCall sample_env (AddReviewer 1 12)]"
  have c: "cp w = (cp review_world)\<lparr>claims := (claims (cp review_world))(1 :=
      (claims (cp review_world) 1)\<lparr>assignedReviewer := 10\<rparr>)\<rparr>"
    unfolding w_def by (rule assigned_world_cp)
  have h1: "claim_created w 1"
    by (simp add: c claim_created_def review_world_cp sample_world_cp cp_constructor_def)
  have h2: "status (claims (cp w) 1) = UnderReview"
    and h3: "assignedReviewer (claims (cp w) 1) = 10"
    by (simp_all add: c review_world_cp)
  have h4: "cp_exec sample_env (RemoveReviewer 1 10) w = Inr w1"
    by (simp add: w1_def sys_transact_def in_cp_def andThen_def removeReviewer_def c
          review_world_cp sample_world_cp cp_constructor_def)
  have c1: "cp w1 = (cp w)\<lparr>reviewers := (\<lambda>_. False)(11 := True, 10 := False),
      activeReviewers := [11]\<rparr>"
    by (simp add: w1_def sys_transact_def in_cp_def andThen_def removeReviewer_def c
          review_world_cp sample_world_cp cp_constructor_def removeLoop.simps)
  have q: "sys_transact (ClaimsCall sample_env (ReviewerRejectClaim 11 1 ''no'')) w1 = w1"
    by (simp add: sys_transact_def reviewerRejectClaim_def c1 c review_world_cp)
  have h5: "undisturbed 10 1 cs w1"
    by (simp add: cs_def q)
  have run: "sys_run cs w1 = sys_transact (ClaimsCall sample_env (AddReviewer 1 12)) w1"
    by (simp add: cs_def q)
  have r: "\<not> reviewers (cp (sys_run cs w1)) 10" "reviewers (cp (sys_run cs w1)) 12"
    unfolding run
    by (simp_all add: sys_transact_def in_cp_def andThen_def addReviewer_def c1 c
          review_world_cp sample_world_cp cp_constructor_def)
  from removed_reviewer_blocks_claim [OF h1 h2 h3 h4 h5, of sample_env 10 500000 "''no''"] r(1)
  have 1: "cp_exec sample_env (ReviewerApproveClaim 10 1 500000) (sys_run cs w1) = Inl OnlyReviewer"
    and 3: "status (claims (cp (sys_run cs w1)) 1) = UnderReview"
    by simp_all
  from removed_reviewer_blocks_claim [OF h1 h2 h3 h4 h5, of sample_env 12 500000 "''no''"] r(2)
  have 2: "cp_exec sample_env (ReviewerRejectClaim 12 1 ''no'') (sys_run cs w1) =
      Inl NotAssignedReviewer"
    by simp
  from 1 2 3 show ?thesis by (simp only: w_def w1_def cs_def simp_thms)
qed

end
